theory Spec2Isabelle
  imports Main "HOL-Library.Word"
begin

unbundle bit_operations_syntax

section \<open>Debounce and change detection (app/main.c)\<close>

text \<open>
  \<^verbatim>\<open>KeyboardState_t\<close> of main.c: three \<^verbatim>\<open>uint32_t\<close> bitmaps and the array
  \<^verbatim>\<open>uint8_t debounce_counter[64]\<close>, a list that the C declaration fixes at 64 entries.
\<close>

record KeyboardState_t =
  current_state :: "32 word"
  previous_state :: "32 word"
  debounce_counter :: "8 word list"
  stable_state :: "32 word"

definition MAX_MATRIX_KEYS :: nat where
  "MAX_MATRIX_KEYS = 64"

definition DEBOUNCE_COUNT :: "8 word" where
  "DEBOUNCE_COUNT = 3"

text \<open>
  The mask \<^verbatim>\<open>1UL << i\<close>. On the 32-bit target \<^verbatim>\<open>unsigned long\<close> has 32 bits; the loops
  of main.c run \<open>i\<close> up to 63, and for \<open>32 \<le> i\<close> the mask is taken to be 0, which is what
  a shift of a 32-bit register by 32 or more yields on the Cortex-M core the program is
  built for (and what \<open>push_bit\<close> yields on \<open>32 word\<close>).
\<close>

definition key_mask :: "nat \<Rightarrow> 32 word" where
  "key_mask i = push_bit i 1"

text \<open>\<^verbatim>\<open>memset(&keyboard_state, 0, sizeof(KeyboardState_t))\<close>.\<close>

definition keyboard_state_zero :: KeyboardState_t where
  "keyboard_state_zero =
     \<lparr>current_state = 0, previous_state = 0,
      debounce_counter = replicate 64 0, stable_state = 0\<rparr>"

text \<open>The body of the \<^verbatim>\<open>for\<close> loop of \<^verbatim>\<open>Update_Keyboard_State\<close>, for one index \<open>i\<close>.\<close>

definition debounce_key :: "32 word \<Rightarrow> nat \<Rightarrow> KeyboardState_t \<Rightarrow> KeyboardState_t" where
  "debounce_key raw_state i s =
     (let raw_pressed = (raw_state AND key_mask i \<noteq> 0);
          stable_pressed = (stable_state s AND key_mask i \<noteq> 0)
      in if raw_pressed = stable_pressed
         then s\<lparr>debounce_counter := (debounce_counter s)[i := 0]\<rparr>
         else
           let s1 = s\<lparr>debounce_counter := (debounce_counter s)[i := debounce_counter s ! i + 1]\<rparr>
           in if DEBOUNCE_COUNT \<le> debounce_counter s1 ! i
              then
                let s2 = (if raw_pressed
                          then s1\<lparr>stable_state := stable_state s1 OR key_mask i\<rparr>
                          else s1\<lparr>stable_state := stable_state s1 AND NOT (key_mask i)\<rparr>)
                in s2\<lparr>debounce_counter := (debounce_counter s2)[i := 0]\<rparr>
              else s1)"

definition Update_Keyboard_State :: "KeyboardState_t \<Rightarrow> 32 word \<Rightarrow> KeyboardState_t" where
  "Update_Keyboard_State kbd_state raw_state =
     (let s1 = kbd_state\<lparr>previous_state := stable_state kbd_state\<rparr>;
          s2 = fold (debounce_key raw_state) [0..<MAX_MATRIX_KEYS] s1
      in s2\<lparr>current_state := stable_state s2\<rparr>)"

text \<open>A run of update cycles, one raw scan result per cycle.\<close>

definition run_updates :: "KeyboardState_t \<Rightarrow> 32 word list \<Rightarrow> KeyboardState_t" where
  "run_updates s raws = foldl Update_Keyboard_State s raws"

text \<open>
  What the loop body reads and writes for key \<open>i\<close>: bit \<open>i\<close> of the stable bitmap and
  the counter of \<open>i\<close>.
\<close>

definition key_view :: "KeyboardState_t \<Rightarrow> nat \<Rightarrow> bool \<times> 8 word" where
  "key_view s i = (bit (stable_state s) i, debounce_counter s ! i)"

text \<open>The state machine of one key, as section 4.3 of the specification words it.\<close>

definition key_step :: "bool \<Rightarrow> bool \<times> 8 word \<Rightarrow> bool \<times> 8 word" where
  "key_step raw_pressed v =
     (if raw_pressed = fst v then (fst v, 0)
      else if DEBOUNCE_COUNT \<le> snd v + 1 then (raw_pressed, 0)
      else (fst v, snd v + 1))"

definition kbd_wf :: "KeyboardState_t \<Rightarrow> bool" where
  "kbd_wf s \<longleftrightarrow> length (debounce_counter s) = 64"


section \<open>MIDI encoder (app/midi.c, app/midi.h)\<close>

text \<open>
  The module state of midi.c is the flag \<^verbatim>\<open>midi_initialized\<close>. The serial transport is an
  external collaborator; \<open>uart_tx\<close> records, in order, the bytes that midi.c hands to
  \<^verbatim>\<open>BSP_UART_putc(MIDI_UART_ID, _)\<close>. Diagnostic \<^verbatim>\<open>printf\<close> output is not part of the model.
\<close>

record midi_module =
  midi_initialized :: bool
  uart_tx :: "8 word list"

definition MIDI_NOTE_OFF :: "8 word" where "MIDI_NOTE_OFF = 0x80"
definition MIDI_NOTE_ON :: "8 word" where "MIDI_NOTE_ON = 0x90"
definition MIDI_CONTROL_CHANGE :: "8 word" where "MIDI_CONTROL_CHANGE = 0xB0"
definition MIDI_PROGRAM_CHANGE :: "8 word" where "MIDI_PROGRAM_CHANGE = 0xC0"
definition MIDI_PITCH_BEND :: "8 word" where "MIDI_PITCH_BEND = 0xE0"
definition MIDI_CC_ALL_NOTES_OFF :: "8 word" where "MIDI_CC_ALL_NOTES_OFF = 123"

text \<open>
  Modelled from the spec: \<^verbatim>\<open>BSP_UART_putc\<close> of the board support package, whose source is
  not among the files (section 6: \<^verbatim>\<open>put_byte(port_id, byte)\<close>, reliable and blocking at the
  byte level). It appends the byte to the log of the MIDI port.
\<close>

definition BSP_UART_putc :: "midi_module \<Rightarrow> 8 word \<Rightarrow> midi_module" where
  "BSP_UART_putc m c = m\<lparr>uart_tx := uart_tx m @ [c]\<rparr>"

text \<open>
  \<^verbatim>\<open>MIDI_send_raw(uint8_t *data, uint8_t length)\<close>; \<open>None\<close> is the \<^verbatim>\<open>NULL\<close> pointer. Every
  caller in midi.c passes a buffer of exactly \<open>length\<close> bytes.
\<close>

definition MIDI_send_raw :: "midi_module \<Rightarrow> 8 word list option \<Rightarrow> 8 word \<Rightarrow> midi_module" where
  "MIDI_send_raw m data len =
     (if \<not> midi_initialized m \<or> data = None \<or> len = 0 then m
      else fold (\<lambda>i m'. BSP_UART_putc m' (the data ! i)) [0..<unat len] m)"

definition MIDI_send_note_on :: "midi_module \<Rightarrow> 8 word \<Rightarrow> 8 word \<Rightarrow> 8 word \<Rightarrow> midi_module" where
  "MIDI_send_note_on m channel note velocity =
     (if channel < 1 \<or> channel > 16 \<or> note > 127 \<or> velocity > 127 then m
      else MIDI_send_raw m (Some [MIDI_NOTE_ON OR (channel - 1), note, velocity]) 3)"

definition MIDI_send_note_off :: "midi_module \<Rightarrow> 8 word \<Rightarrow> 8 word \<Rightarrow> 8 word \<Rightarrow> midi_module" where
  "MIDI_send_note_off m channel note velocity =
     (if channel < 1 \<or> channel > 16 \<or> note > 127 \<or> velocity > 127 then m
      else MIDI_send_raw m (Some [MIDI_NOTE_OFF OR (channel - 1), note, velocity]) 3)"

definition MIDI_send_control_change ::
  "midi_module \<Rightarrow> 8 word \<Rightarrow> 8 word \<Rightarrow> 8 word \<Rightarrow> midi_module" where
  "MIDI_send_control_change m channel controller val =
     (if channel < 1 \<or> channel > 16 \<or> controller > 127 \<or> val > 127 then m
      else MIDI_send_raw m (Some [MIDI_CONTROL_CHANGE OR (channel - 1), controller, val]) 3)"

definition MIDI_send_program_change :: "midi_module \<Rightarrow> 8 word \<Rightarrow> 8 word \<Rightarrow> midi_module" where
  "MIDI_send_program_change m channel program =
     (if channel < 1 \<or> channel > 16 \<or> program > 127 then m
      else MIDI_send_raw m (Some [MIDI_PROGRAM_CHANGE OR (channel - 1), program]) 2)"

text \<open>
  \<^verbatim>\<open>MIDI_send_pitch_bend(uint8_t channel, int16_t value)\<close>: the sum \<^verbatim>\<open>value + 8192\<close> is
  converted to \<^verbatim>\<open>uint16_t\<close>, which is the addition of \<open>16 word\<close>.
\<close>

definition MIDI_send_pitch_bend :: "midi_module \<Rightarrow> 8 word \<Rightarrow> 16 word \<Rightarrow> midi_module" where
  "MIDI_send_pitch_bend m channel val =
     (if channel < 1 \<or> channel > 16 then m
      else
        let bend_value0 = val + 8192;
            bend_value = (if bend_value0 > 16383 then 16383 else bend_value0)
        in MIDI_send_raw m
             (Some [MIDI_PITCH_BEND OR (channel - 1),
                    ucast (bend_value AND 0x7F),
                    ucast (drop_bit 7 bend_value AND 0x7F)]) 3)"

definition MIDI_send_all_notes_off :: "midi_module \<Rightarrow> 8 word \<Rightarrow> midi_module" where
  "MIDI_send_all_notes_off m channel = MIDI_send_control_change m channel MIDI_CC_ALL_NOTES_OFF 0"

definition MIDI_init :: "midi_module \<Rightarrow> midi_module" where
  "MIDI_init m = MIDI_send_all_notes_off (m\<lparr>midi_initialized := True\<rparr>) 1"

subsection \<open>Note names\<close>

text \<open>The local array \<^verbatim>\<open>notes[]\<close>: twelve pairs of a letter and \<^verbatim>\<open>'#'\<close> or a blank.\<close>

definition notes_table :: string where
  "notes_table = ''C C#D D#E F F#G G#A A#B ''"

text \<open>The \<^verbatim>\<open>switch\<close> that rewrites a flat as the sharp of the letter below; \<open>None\<close> is its
  \<^verbatim>\<open>default: return 255\<close>.\<close>

definition flat_to_sharp :: "char \<Rightarrow> char option" where
  "flat_to_sharp note_char =
     (if note_char = CHR ''D'' then Some CHR ''C''
      else if note_char = CHR ''E'' then Some CHR ''D''
      else if note_char = CHR ''G'' then Some CHR ''F''
      else if note_char = CHR ''A'' then Some CHR ''G''
      else if note_char = CHR ''B'' then Some CHR ''A''
      else None)"

text \<open>The search loop with its \<^verbatim>\<open>break\<close>: the first index that matches; \<open>None\<close> is
  \<^verbatim>\<open>semitone == -1\<close>.\<close>

definition find_semitone :: "char \<Rightarrow> char \<Rightarrow> nat option" where
  "find_semitone note_char accidental =
     find (\<lambda>i. notes_table ! (i * 2) = note_char \<and>
               (accidental = CHR ''#'' \<and> notes_table ! (i * 2 + 1) = CHR ''#'' \<or>
                accidental \<noteq> CHR ''#'' \<and> notes_table ! (i * 2 + 1) = CHR '' ''))
          [0..<12]"

text \<open>
  \<^verbatim>\<open>MIDI_note_name_to_number(const char* note_name)\<close>: \<open>None\<close> is \<^verbatim>\<open>NULL\<close>, \<open>Some s\<close> a
  string of \<^verbatim>\<open>strlen\<close> \<open>length s\<close>. The result type is \<^verbatim>\<open>uint8_t\<close>. The octave character is
  read as an unsigned byte; a byte above 127 is rejected either way, as too large here and
  as negative where \<^verbatim>\<open>char\<close> is signed. \<open>octave_and_number\<close> is the part of the function from
  \<^verbatim>\<open>octave_pos\<close> on.
\<close>

definition octave_and_number :: "string \<Rightarrow> char \<Rightarrow> nat \<Rightarrow> 8 word" where
  "octave_and_number s accidental semitone =
     (let octave_pos = (if accidental = CHR ''#'' \<or> accidental = CHR ''b'' then 2 else 1 :: nat)
      in if length s \<le> octave_pos then 255
         else
           let octave = int (of_char (s ! octave_pos) :: nat) - 48
           in if octave < 0 \<or> octave > 9 then 255
              else
                let midi_note = (octave + 1) * 12 + int semitone
                in if 0 \<le> midi_note \<and> midi_note \<le> 127 then of_int midi_note else 255)"

definition MIDI_note_name_to_number :: "string option \<Rightarrow> 8 word" where
  "MIDI_note_name_to_number note_name =
     (case note_name of
        None \<Rightarrow> 255
      | Some s \<Rightarrow>
          if length s < 2 then 255
          else
            let note_char0 = s ! 0;
                accidental0 = (if length s > 2 then s ! 1 else CHR 0x00)
            in case (if accidental0 = CHR ''b''
                     then map_option (\<lambda>c. (c, CHR ''#'')) (flat_to_sharp note_char0)
                     else Some (note_char0, accidental0)) of
                 None \<Rightarrow> 255
               | Some (note_char, accidental) \<Rightarrow>
                   (case find_semitone note_char accidental of
                      None \<Rightarrow> 255
                    | Some semitone \<Rightarrow> octave_and_number s accidental semitone))"

subsection \<open>The note-name convention in the words of the specification\<close>

datatype accidental_t = Natural | Sharp | Flat

definition natural_semitone :: "char \<Rightarrow> nat option" where
  "natural_semitone l =
     map_of [(CHR ''C'', 0), (CHR ''D'', 2), (CHR ''E'', 4), (CHR ''F'', 5),
             (CHR ''G'', 7), (CHR ''A'', 9), (CHR ''B'', 11)] l"

definition sharp_semitone :: "char \<Rightarrow> nat option" where
  "sharp_semitone l =
     map_of [(CHR ''C'', 1), (CHR ''D'', 3), (CHR ''F'', 6), (CHR ''G'', 8), (CHR ''A'', 10)] l"

text \<open>Db\<rightarrow>C#, Eb\<rightarrow>D#, Gb\<rightarrow>F#, Ab\<rightarrow>G#, Bb\<rightarrow>A#; no flat on C or F.\<close>

definition flat_semitone :: "char \<Rightarrow> nat option" where
  "flat_semitone l =
     (case map_of [(CHR ''D'', CHR ''C''), (CHR ''E'', CHR ''D''), (CHR ''G'', CHR ''F''),
                   (CHR ''A'', CHR ''G''), (CHR ''B'', CHR ''A'')] l of
        None \<Rightarrow> None
      | Some l' \<Rightarrow> sharp_semitone l')"

definition spec_semitone :: "char \<Rightarrow> accidental_t \<Rightarrow> nat option" where
  "spec_semitone l a =
     (case a of Natural \<Rightarrow> natural_semitone l | Sharp \<Rightarrow> sharp_semitone l
              | Flat \<Rightarrow> flat_semitone l)"

definition spec_note_number :: "char \<Rightarrow> accidental_t \<Rightarrow> nat \<Rightarrow> 8 word" where
  "spec_note_number l a octave =
     (case spec_semitone l a of
        None \<Rightarrow> 255
      | Some st \<Rightarrow> if (octave + 1) * 12 + st \<le> 127 then of_nat ((octave + 1) * 12 + st) else 255)"

text \<open>The written name: letter, optional accidental, one octave digit.\<close>

definition note_text :: "char \<Rightarrow> accidental_t \<Rightarrow> nat \<Rightarrow> string" where
  "note_text l a octave =
     l # (case a of Natural \<Rightarrow> [] | Sharp \<Rightarrow> ''#'' | Flat \<Rightarrow> ''b'') @ [''0123456789'' ! octave]"

section \<open>Change detection and note emission (app/main.c)\<close>

text \<open>The table \<^verbatim>\<open>midi_notes[64]\<close>, one row of the matrix per line.\<close>

definition midi_notes :: "8 word list" where
  "midi_notes =
      [48, 49, 50, 51, 52, 53, 54, 55] @
      [56, 57, 58, 59, 60, 61, 62, 63] @
      [64, 65, 66, 67, 68, 69, 70, 71] @
      [72, 73, 74, 75, 76, 77, 78, 79] @
      [80, 81, 82, 83, 84, 85, 86, 87] @
      [88, 89, 90, 91, 92, 93, 94, 95] @
      [96, 97, 98, 99, 100, 101, 102, 103] @
      [104, 105, 106, 107, 108, 109, 110, 111]"

definition Send_MIDI_Note :: "midi_module \<Rightarrow> int \<Rightarrow> bool \<Rightarrow> midi_module" where
  "Send_MIDI_Note m key_index pressed =
     (if key_index < 0 \<or> key_index \<ge> int MAX_MATRIX_KEYS then m
      else
        let midi_note = midi_notes ! nat key_index
        in if pressed then MIDI_send_note_on m 1 midi_note 100
           else MIDI_send_note_off m 1 midi_note 0)"

text \<open>The three bytes that \<^verbatim>\<open>Send_MIDI_Note\<close> passes on for key \<open>i\<close>: channel 1, velocity 100
  for a press and 0 for a release.\<close>

definition key_message :: "bool \<Rightarrow> nat \<Rightarrow> 8 word list" where
  "key_message pressed i =
     (if pressed then [0x90 OR (1 - 1), midi_notes ! i, 100]
      else [0x80 OR (1 - 1), midi_notes ! i, 0])"

definition key_changes :: "KeyboardState_t \<Rightarrow> 32 word" where
  "key_changes kbd_state = current_state kbd_state XOR previous_state kbd_state"

definition Process_Key_Changes :: "KeyboardState_t \<Rightarrow> midi_module \<Rightarrow> midi_module" where
  "Process_Key_Changes kbd_state m =
     (let changes = key_changes kbd_state
      in if changes = 0 then m
         else fold (\<lambda>i m'.
                 if changes AND key_mask i \<noteq> 0
                 then Send_MIDI_Note m' (int i) (current_state kbd_state AND key_mask i \<noteq> 0)
                 else m')
               [0..<MAX_MATRIX_KEYS] m)"

text \<open>
  \<^verbatim>\<open>Keyboard_MIDI_Process\<close>: the period gate on the millisecond tick, then one cycle of the
  pipeline. \<open>raw_state\<close> is what \<^verbatim>\<open>MATRIX_KEYBOARD_read_all_touchs()\<close> returns in this cycle.
\<close>

definition KEYBOARD_SCAN_PERIOD_MS :: "32 word" where
  "KEYBOARD_SCAN_PERIOD_MS = 10"

record app_state =
  keyboard_last_scan :: "32 word"
  keyboard_state :: KeyboardState_t
  midi :: midi_module

definition Keyboard_MIDI_Process :: "32 word \<Rightarrow> 32 word \<Rightarrow> app_state \<Rightarrow> app_state" where
  "Keyboard_MIDI_Process current_tick raw_state a =
     (if current_tick - keyboard_last_scan a \<ge> KEYBOARD_SCAN_PERIOD_MS
      then
        let kbd = Update_Keyboard_State (keyboard_state a) raw_state;
            m = Process_Key_Changes kbd (midi a)
        in a\<lparr>keyboard_state := kbd, midi := m, keyboard_last_scan := current_tick\<rparr>
      else a)"

section \<open>GPIO expander driver (drivers/MCP23017/stm32g4_mcp23017.c)\<close>

text \<open>The register addresses of \<^verbatim>\<open>MCP23017_register_e\<close> that the driver uses.\<close>

definition MPC23017_REGISTER_IODIR_A :: "8 word" where "MPC23017_REGISTER_IODIR_A = 0x00"
definition MPC23017_REGISTER_IODIR_B :: "8 word" where "MPC23017_REGISTER_IODIR_B = 0x01"
definition MPC23017_REGISTER_GPINTEN_A :: "8 word" where "MPC23017_REGISTER_GPINTEN_A = 0x04"
definition MPC23017_REGISTER_GPINTEN_B :: "8 word" where "MPC23017_REGISTER_GPINTEN_B = 0x05"
definition MPC23017_REGISTER_IOCON_A :: "8 word" where "MPC23017_REGISTER_IOCON_A = 0x0A"
definition MPC23017_REGISTER_IOCON_B :: "8 word" where "MPC23017_REGISTER_IOCON_B = 0x0B"
definition MPC23017_REGISTER_GPPU_A :: "8 word" where "MPC23017_REGISTER_GPPU_A = 0x0C"
definition MPC23017_REGISTER_GPPU_B :: "8 word" where "MPC23017_REGISTER_GPPU_B = 0x0D"
definition MPC23017_REGISTER_GPIO_A :: "8 word" where "MPC23017_REGISTER_GPIO_A = 0x12"
definition MPC23017_REGISTER_GPIO_B :: "8 word" where "MPC23017_REGISTER_GPIO_B = 0x13"
definition MPC23017_REGISTER_OLAT_A :: "8 word" where "MPC23017_REGISTER_OLAT_A = 0x14"
definition MPC23017_REGISTER_OLAT_B :: "8 word" where "MPC23017_REGISTER_OLAT_B = 0x15"

text \<open>
  Modelled from the spec: the enumerations of the driver's header \<^verbatim>\<open>stm32g4_mcp23017.h\<close>,
  which is not among the sources (section 4.1: a port is A or B, a direction, a level).
  The driver compares a port with \<^verbatim>\<open>MCP23017_PORT_A\<close>, a direction with
  \<^verbatim>\<open>MCP23017_DIRECTION_OUTPUT\<close> and a level with the \<^verbatim>\<open>_LOW\<close> enumerator, and treats every
  other value as the second one. A pin argument is an 8-bit mask in the driver
  (\<^verbatim>\<open>value & pin\<close>, \<^verbatim>\<open>value | pin\<close>) and is modelled as the byte itself.
\<close>

datatype MCP23017_port_e = MCP23017_PORT_A | MCP23017_PORT_B
datatype MCP23017_direction_e = MCP23017_DIRECTION_OUTPUT | MCP23017_DIRECTION_INPUT
datatype MCP23017_pinState_e = MCP23017_PIN_STATE_LOW | MCP23017_PIN_STATE_HIGH
datatype MCP23017_pullUpState_e = MCP23017_PULL_UP_STATE_LOW | MCP23017_PULL_UP_STATE_HIGH
datatype HAL_StatusTypeDef = HAL_OK | HAL_ERROR

text \<open>\<^verbatim>\<open>MCP23017_ic_t\<close>; the bus handle \<^verbatim>\<open>I2C_TypeDef*\<close> is a number.\<close>

record MCP23017_ic_t =
  used :: bool
  address :: "8 word"
  I2Cx :: nat
  error_count :: "8 word"

text \<open>
  The I2C bus is an external collaborator (\<^verbatim>\<open>BSP_I2C_Init\<close>, \<^verbatim>\<open>BSP_I2C_Read\<close>,
  \<^verbatim>\<open>BSP_I2C_Write\<close> of the board support package). It is a parameter of the model: the
  transactions issued so far are logged in \<open>i2c_trace\<close>, and \<open>i2c_reply\<close> answers a
  transaction as a function of the whole history up to and including that transaction;
  \<open>None\<close> is any status other than \<^verbatim>\<open>HAL_OK\<close>, \<open>Some v\<close> is \<^verbatim>\<open>HAL_OK\<close>, with \<open>v\<close> the byte
  read. Any deterministic device is such a function.

  \<open>MCP23017_ic\<close> is the slot table \<^verbatim>\<open>MCP23017_ic[MCP23017_NB_IC]\<close>; the constant
  \<^verbatim>\<open>MCP23017_NB_IC\<close> of the missing header is the length of the list (below 256, the loop
  index of \<^verbatim>\<open>MCP23017_add\<close> being a \<^verbatim>\<open>uint8_t\<close>).
\<close>

datatype i2c_op =
  I2C_Init nat
  | I2C_Read nat "8 word" "8 word"
  | I2C_Write nat "8 word" "8 word" "8 word"

record driver_state =
  MCP23017_ic :: "MCP23017_ic_t list"
  i2c_reply :: "i2c_op list \<Rightarrow> 8 word option"
  i2c_trace :: "i2c_op list"

definition BSP_I2C_Init :: "driver_state \<Rightarrow> nat \<Rightarrow> HAL_StatusTypeDef \<times> driver_state" where
  "BSP_I2C_Init d h =
     (let t = i2c_trace d @ [I2C_Init h]
      in (if i2c_reply d t = None then HAL_ERROR else HAL_OK, d\<lparr>i2c_trace := t\<rparr>))"

definition BSP_I2C_Read ::
  "driver_state \<Rightarrow> nat \<Rightarrow> 8 word \<Rightarrow> 8 word \<Rightarrow> 8 word option \<times> driver_state" where
  "BSP_I2C_Read d h a reg =
     (let t = i2c_trace d @ [I2C_Read h a reg] in (i2c_reply d t, d\<lparr>i2c_trace := t\<rparr>))"

definition BSP_I2C_Write ::
  "driver_state \<Rightarrow> nat \<Rightarrow> 8 word \<Rightarrow> 8 word \<Rightarrow> 8 word \<Rightarrow> HAL_StatusTypeDef \<times> driver_state" where
  "BSP_I2C_Write d h a reg v =
     (let t = i2c_trace d @ [I2C_Write h a reg v]
      in (if i2c_reply d t = None then HAL_ERROR else HAL_OK, d\<lparr>i2c_trace := t\<rparr>))"

definition MCP23017_checkId :: "driver_state \<Rightarrow> nat \<Rightarrow> bool" where
  "MCP23017_checkId d chip_id =
     (if chip_id \<ge> length (MCP23017_ic d) then False
      else if used (MCP23017_ic d ! chip_id) = False then False
      else True)"

text \<open>\<^verbatim>\<open>MCP23017_ic[id].error_count++\<close> on a \<^verbatim>\<open>uint8_t\<close>.\<close>

definition error_count_incr :: "driver_state \<Rightarrow> nat \<Rightarrow> driver_state" where
  "error_count_incr d chip_id =
     d\<lparr>MCP23017_ic :=
         (MCP23017_ic d)[chip_id := (MCP23017_ic d ! chip_id)
                                 \<lparr>error_count := error_count (MCP23017_ic d ! chip_id) + 1\<rparr>]\<rparr>"

text \<open>\<^verbatim>\<open>MCP23017_ic[id].used = false\<close>.\<close>

definition slot_release :: "driver_state \<Rightarrow> nat \<Rightarrow> driver_state" where
  "slot_release d chip_id =
     d\<lparr>MCP23017_ic := (MCP23017_ic d)[chip_id := (MCP23017_ic d ! chip_id)\<lparr>used := False\<rparr>]\<rparr>"

subsection \<open>Register operations\<close>

text \<open>
  The parameter \<^verbatim>\<open>id\<close> of the C functions is \<open>chip_id\<close> here.

  The setters return the boolean of the C function with the new state. A getter returns
  \<open>Some v\<close> when the C function returns \<^verbatim>\<open>true\<close> having stored \<open>v\<close> through its pointer, and
  \<open>None\<close> when it returns \<^verbatim>\<open>false\<close>; its argument \<open>ptr\<close> says whether the pointer is
  non-\<^verbatim>\<open>NULL\<close>.
\<close>

definition MCP23017_setIO ::
  "driver_state \<Rightarrow> nat \<Rightarrow> MCP23017_port_e \<Rightarrow> 8 word \<Rightarrow> MCP23017_direction_e
     \<Rightarrow> bool \<times> driver_state" where
  "MCP23017_setIO d chip_id port pin direction =
     (if \<not> MCP23017_checkId d chip_id then (False, d)
      else
        let reg = (if port = MCP23017_PORT_A then MPC23017_REGISTER_IODIR_A
                   else MPC23017_REGISTER_IODIR_B)
        in case BSP_I2C_Read d (I2Cx (MCP23017_ic d ! chip_id)) (address (MCP23017_ic d ! chip_id)) reg of
             (None, d1) \<Rightarrow> (False, error_count_incr d1 chip_id)
           | (Some v, d1) \<Rightarrow>
               let v' = (if direction = MCP23017_DIRECTION_OUTPUT then v AND NOT pin else v OR pin)
               in case BSP_I2C_Write d1 (I2Cx (MCP23017_ic d1 ! chip_id))
                         (address (MCP23017_ic d1 ! chip_id)) reg v' of
                    (HAL_OK, d2) \<Rightarrow> (True, d2)
                  | (HAL_ERROR, d2) \<Rightarrow> (False, error_count_incr d2 chip_id))"

definition MCP23017_getIO ::
  "driver_state \<Rightarrow> nat \<Rightarrow> MCP23017_port_e \<Rightarrow> 8 word \<Rightarrow> bool
     \<Rightarrow> MCP23017_direction_e option \<times> driver_state" where
  "MCP23017_getIO d chip_id port pin ptr =
     (if \<not> MCP23017_checkId d chip_id then (None, d)
      else if \<not> ptr then (None, d)
      else
        let reg = (if port = MCP23017_PORT_A then MPC23017_REGISTER_IODIR_A
                   else MPC23017_REGISTER_IODIR_B)
        in case BSP_I2C_Read d (I2Cx (MCP23017_ic d ! chip_id)) (address (MCP23017_ic d ! chip_id)) reg of
             (None, d1) \<Rightarrow> (None, error_count_incr d1 chip_id)
           | (Some v, d1) \<Rightarrow>
               (Some (if v AND pin \<noteq> 0 then MCP23017_DIRECTION_INPUT
                      else MCP23017_DIRECTION_OUTPUT), d1))"

definition MCP23017_setGPIO ::
  "driver_state \<Rightarrow> nat \<Rightarrow> MCP23017_port_e \<Rightarrow> 8 word \<Rightarrow> MCP23017_pinState_e
     \<Rightarrow> bool \<times> driver_state" where
  "MCP23017_setGPIO d chip_id port pin state =
     (if \<not> MCP23017_checkId d chip_id then (False, d)
      else
        let reg = (if port = MCP23017_PORT_A then MPC23017_REGISTER_OLAT_A
                   else MPC23017_REGISTER_OLAT_B)
        in case BSP_I2C_Read d (I2Cx (MCP23017_ic d ! chip_id)) (address (MCP23017_ic d ! chip_id)) reg of
             (None, d1) \<Rightarrow> (False, error_count_incr d1 chip_id)
           | (Some v, d1) \<Rightarrow>
               let v' = (if state = MCP23017_PIN_STATE_LOW then v AND NOT pin else v OR pin)
               in case BSP_I2C_Write d1 (I2Cx (MCP23017_ic d1 ! chip_id))
                         (address (MCP23017_ic d1 ! chip_id)) reg v' of
                    (HAL_OK, d2) \<Rightarrow> (True, d2)
                  | (HAL_ERROR, d2) \<Rightarrow> (False, error_count_incr d2 chip_id))"

definition MCP23017_getGPIO ::
  "driver_state \<Rightarrow> nat \<Rightarrow> MCP23017_port_e \<Rightarrow> 8 word \<Rightarrow> bool
     \<Rightarrow> MCP23017_pinState_e option \<times> driver_state" where
  "MCP23017_getGPIO d chip_id port pin ptr =
     (if \<not> MCP23017_checkId d chip_id then (None, d)
      else if \<not> ptr then (None, d)
      else
        let reg = (if port = MCP23017_PORT_A then MPC23017_REGISTER_GPIO_A
                   else MPC23017_REGISTER_GPIO_B)
        in case BSP_I2C_Read d (I2Cx (MCP23017_ic d ! chip_id)) (address (MCP23017_ic d ! chip_id)) reg of
             (None, d1) \<Rightarrow> (None, error_count_incr d1 chip_id)
           | (Some v, d1) \<Rightarrow>
               (Some (if v AND pin \<noteq> 0 then MCP23017_PIN_STATE_HIGH
                      else MCP23017_PIN_STATE_LOW), d1))"

definition MCP23017_getGPIO_all_pins ::
  "driver_state \<Rightarrow> nat \<Rightarrow> MCP23017_port_e \<Rightarrow> bool \<Rightarrow> 8 word option \<times> driver_state" where
  "MCP23017_getGPIO_all_pins d chip_id port ptr =
     (if \<not> MCP23017_checkId d chip_id then (None, d)
      else if \<not> ptr then (None, d)
      else
        let reg = (if port = MCP23017_PORT_A then MPC23017_REGISTER_GPIO_A
                   else MPC23017_REGISTER_GPIO_B)
        in case BSP_I2C_Read d (I2Cx (MCP23017_ic d ! chip_id)) (address (MCP23017_ic d ! chip_id)) reg of
             (None, d1) \<Rightarrow> (None, error_count_incr d1 chip_id)
           | (Some v, d1) \<Rightarrow> (Some v, d1))"

definition MCP23017_setPullUp ::
  "driver_state \<Rightarrow> nat \<Rightarrow> MCP23017_port_e \<Rightarrow> 8 word \<Rightarrow> MCP23017_pullUpState_e
     \<Rightarrow> bool \<times> driver_state" where
  "MCP23017_setPullUp d chip_id port pin state =
     (if \<not> MCP23017_checkId d chip_id then (False, d)
      else
        let reg = (if port = MCP23017_PORT_A then MPC23017_REGISTER_GPPU_A
                   else MPC23017_REGISTER_GPPU_B)
        in case BSP_I2C_Read d (I2Cx (MCP23017_ic d ! chip_id)) (address (MCP23017_ic d ! chip_id)) reg of
             (None, d1) \<Rightarrow> (False, error_count_incr d1 chip_id)
           | (Some v, d1) \<Rightarrow>
               let v' = (if state = MCP23017_PULL_UP_STATE_LOW then v AND NOT pin else v OR pin)
               in case BSP_I2C_Write d1 (I2Cx (MCP23017_ic d1 ! chip_id))
                         (address (MCP23017_ic d1 ! chip_id)) reg v' of
                    (HAL_OK, d2) \<Rightarrow> (True, d2)
                  | (HAL_ERROR, d2) \<Rightarrow> (False, error_count_incr d2 chip_id))"

definition MCP23017_getPullUp ::
  "driver_state \<Rightarrow> nat \<Rightarrow> MCP23017_port_e \<Rightarrow> 8 word \<Rightarrow> bool
     \<Rightarrow> MCP23017_pullUpState_e option \<times> driver_state" where
  "MCP23017_getPullUp d chip_id port pin ptr =
     (if \<not> MCP23017_checkId d chip_id then (None, d)
      else if \<not> ptr then (None, d)
      else
        let reg = (if port = MCP23017_PORT_A then MPC23017_REGISTER_GPPU_A
                   else MPC23017_REGISTER_GPPU_B)
        in case BSP_I2C_Read d (I2Cx (MCP23017_ic d ! chip_id)) (address (MCP23017_ic d ! chip_id)) reg of
             (None, d1) \<Rightarrow> (None, error_count_incr d1 chip_id)
           | (Some v, d1) \<Rightarrow>
               (Some (if v AND pin \<noteq> 0 then MCP23017_PULL_UP_STATE_HIGH
                      else MCP23017_PULL_UP_STATE_LOW), d1))"

subsection \<open>Registration\<close>

text \<open>
  \<^verbatim>\<open>MCP23017_initIc\<close>. The IOCON byte is \<^verbatim>\<open>iocon.rawData\<close> after it was set to \<^verbatim>\<open>0x00\<close> and
  every bit-field was assigned its enumerator of value 0, which is \<^verbatim>\<open>0x00\<close> in any layout
  of the union.
\<close>

definition MCP23017_initIc ::
  "driver_state \<Rightarrow> nat \<Rightarrow> nat \<Rightarrow> 8 word \<Rightarrow> HAL_StatusTypeDef \<times> driver_state" where
  "MCP23017_initIc d chip_id bus addr =
     (if chip_id \<ge> length (MCP23017_ic d) then (HAL_ERROR, d)
      else
        let a = push_bit 1 0x20 OR push_bit 1 (addr AND 0x07);
            d0 = d\<lparr>MCP23017_ic :=
                     (MCP23017_ic d)[chip_id :=
                        \<lparr>used = True, address = a, I2Cx = bus, error_count = 0\<rparr>]\<rparr>;
            (st1, d1) = BSP_I2C_Init d0 bus
        in if st1 \<noteq> HAL_OK then (HAL_ERROR, slot_release d1 chip_id) else
        let (test_value, d2) = BSP_I2C_Read d1 bus a MPC23017_REGISTER_IODIR_A
        in if test_value = None then (HAL_ERROR, slot_release d2 chip_id) else
        let (st3, d3) = BSP_I2C_Write d2 bus a MPC23017_REGISTER_IODIR_A 0x00
        in if st3 \<noteq> HAL_OK then (HAL_ERROR, slot_release d3 chip_id) else
        let (st4, d4) = BSP_I2C_Write d3 bus a MPC23017_REGISTER_IODIR_B 0xFF
        in if st4 \<noteq> HAL_OK then (HAL_ERROR, slot_release d4 chip_id) else
        let (st5, d5) = BSP_I2C_Write d4 bus a MPC23017_REGISTER_GPPU_B 0xFF
        in if st5 \<noteq> HAL_OK then (HAL_ERROR, slot_release d5 chip_id) else
        let (st6, d6) = BSP_I2C_Write d5 bus a MPC23017_REGISTER_GPPU_A 0x00
        in if st6 \<noteq> HAL_OK then (HAL_ERROR, slot_release d6 chip_id) else
        let (st7, d7) = BSP_I2C_Write d6 bus a MPC23017_REGISTER_OLAT_A 0xFF
        in if st7 \<noteq> HAL_OK then (HAL_ERROR, slot_release d7 chip_id) else
        let iocon_rawData = 0x00;
            (st8, d8) = BSP_I2C_Write d7 bus a MPC23017_REGISTER_IOCON_A iocon_rawData
        in if st8 \<noteq> HAL_OK then (HAL_ERROR, slot_release d8 chip_id) else
        let (st9, d9) = BSP_I2C_Write d8 bus a MPC23017_REGISTER_IOCON_B iocon_rawData
        in if st9 \<noteq> HAL_OK then (HAL_ERROR, slot_release d9 chip_id) else
        let (st10, d10) = BSP_I2C_Write d9 bus a MPC23017_REGISTER_GPINTEN_A 0x00
        in if st10 \<noteq> HAL_OK then (HAL_ERROR, slot_release d10 chip_id) else
        let (st11, d11) = BSP_I2C_Write d10 bus a MPC23017_REGISTER_GPINTEN_B 0x00
        in if st11 \<noteq> HAL_OK then (HAL_ERROR, slot_release d11 chip_id) else
        let (verify_iodir_a, d12) = BSP_I2C_Read d11 bus a MPC23017_REGISTER_IODIR_A
        in if verify_iodir_a = None then (HAL_ERROR, slot_release d12 chip_id) else
        let (verify_iodir_b, d13) = BSP_I2C_Read d12 bus a MPC23017_REGISTER_IODIR_B
        in if verify_iodir_b = None then (HAL_ERROR, slot_release d13 chip_id) else
        let (verify_gppu_b, d14) = BSP_I2C_Read d13 bus a MPC23017_REGISTER_GPPU_B
        in if verify_gppu_b = None then (HAL_ERROR, slot_release d14 chip_id) else
        if verify_iodir_a \<noteq> Some 0x00 \<or> verify_iodir_b \<noteq> Some 0xFF \<or> verify_gppu_b \<noteq> Some 0xFF
        then (HAL_ERROR, slot_release d14 chip_id)
        else (HAL_OK, d14))"

text \<open>
  \<^verbatim>\<open>MCP23017_add\<close>: the loop stops at the first slot that is not in use. The result \<open>None\<close>
  is the handle \<^verbatim>\<open>MCP23017_ID_ERROR\<close> of the missing header, \<open>Some i\<close> the slot index \<open>i\<close>.
\<close>

definition MCP23017_add :: "driver_state \<Rightarrow> nat \<Rightarrow> 8 word \<Rightarrow> nat option \<times> driver_state" where
  "MCP23017_add d bus addr =
     (if addr > 0x07 then (None, d)
      else
        case find (\<lambda>i. used (MCP23017_ic d ! i) = False) [0..<length (MCP23017_ic d)] of
          None \<Rightarrow> (None, d)
        | Some i \<Rightarrow>
            (case MCP23017_initIc d i bus addr of
               (HAL_OK, d') \<Rightarrow> (Some i, d')
             | (HAL_ERROR, d') \<Rightarrow> (None, d')))"

subsection \<open>The initialization sequence in the words of the specification\<close>

text \<open>
  The transactions of the fixed sequence, in order, on bus \<open>bus\<close> for the device at bus
  address \<open>a\<close>: bus configuration, communication test, port A all outputs, port B all
  inputs, port B pull-ups on, port A pull-ups off, port A latch all high, the configuration
  byte to both configuration registers, interrupts off on both ports, and the three
  read-backs.
\<close>

definition init_sequence :: "nat \<Rightarrow> 8 word \<Rightarrow> i2c_op list" where
  "init_sequence bus a =
     [I2C_Init bus,
      I2C_Read bus a MPC23017_REGISTER_IODIR_A,
      I2C_Write bus a MPC23017_REGISTER_IODIR_A 0x00,
      I2C_Write bus a MPC23017_REGISTER_IODIR_B 0xFF,
      I2C_Write bus a MPC23017_REGISTER_GPPU_B 0xFF,
      I2C_Write bus a MPC23017_REGISTER_GPPU_A 0x00,
      I2C_Write bus a MPC23017_REGISTER_OLAT_A 0xFF,
      I2C_Write bus a MPC23017_REGISTER_IOCON_A 0x00,
      I2C_Write bus a MPC23017_REGISTER_IOCON_B 0x00,
      I2C_Write bus a MPC23017_REGISTER_GPINTEN_A 0x00,
      I2C_Write bus a MPC23017_REGISTER_GPINTEN_B 0x00,
      I2C_Read bus a MPC23017_REGISTER_IODIR_A,
      I2C_Read bus a MPC23017_REGISTER_IODIR_B,
      I2C_Read bus a MPC23017_REGISTER_GPPU_B]"

text \<open>
  Every step must succeed, in order; the first that fails ends the run. The result is
  whether all steps succeeded, with the trace up to and including the last step issued.
\<close>

fun run_sequence ::
  "(i2c_op list \<Rightarrow> 8 word option) \<Rightarrow> i2c_op list \<Rightarrow> i2c_op list \<Rightarrow> bool \<times> i2c_op list" where
  "run_sequence rp t [] = (True, t)"
| "run_sequence rp t (x # xs) =
     (if rp (t @ [x]) = None then (False, t @ [x]) else run_sequence rp (t @ [x]) xs)"

text \<open>The bus address \<^verbatim>\<open>(0x20 << 1) | (hardware_address << 1)\<close>.\<close>

definition bus_address :: "8 word \<Rightarrow> 8 word" where
  "bus_address addr = push_bit 1 0x20 OR push_bit 1 addr"

text \<open>The read-back matches what was written.\<close>

definition readback_ok :: "(i2c_op list \<Rightarrow> 8 word option) \<Rightarrow> i2c_op list \<Rightarrow> nat \<Rightarrow> 8 word \<Rightarrow> bool" where
  "readback_ok rp t bus a \<longleftrightarrow>
     rp (t @ take 12 (init_sequence bus a)) = Some 0x00 \<and>
     rp (t @ take 13 (init_sequence bus a)) = Some 0xFF \<and>
     rp (t @ take 14 (init_sequence bus a)) = Some 0xFF"

text \<open>
  What the sequence amounts to for slot \<open>chip_id\<close>: the status, the slot as initialised
  (in use exactly when every step succeeded and the read-back matched), and the trace.
\<close>

definition init_outcome ::
  "driver_state \<Rightarrow> nat \<Rightarrow> nat \<Rightarrow> 8 word \<Rightarrow> HAL_StatusTypeDef \<times> driver_state" where
  "init_outcome d chip_id bus a =
     (let (ok, t') = run_sequence (i2c_reply d) (i2c_trace d) (init_sequence bus a);
          good = (ok \<and> readback_ok (i2c_reply d) (i2c_trace d) bus a)
      in (if good then HAL_OK else HAL_ERROR,
          d\<lparr>MCP23017_ic :=
               (MCP23017_ic d)[chip_id :=
                  \<lparr>used = good, address = a, I2Cx = bus, error_count = 0\<rparr>],
            i2c_trace := t'\<rparr>))"

text \<open>
  A device that acknowledges everything, reads 0x00 from the port A direction register and
  0xFF from every other register: its port A pull-up register does not hold the 0x00 that
  the sequence writes to it.
\<close>

definition pullup_a_stuck :: "i2c_op list \<Rightarrow> 8 word option" where
  "pullup_a_stuck t =
     (case rev t of
        [] \<Rightarrow> None
      | I2C_Read h a r # past \<Rightarrow> Some (if r = MPC23017_REGISTER_IODIR_A then 0x00 else 0xFF)
      | _ # past \<Rightarrow> Some 0x00)"

subsection \<open>Failure of a bus transaction\<close>

text \<open>
  The state after a register operation on slot \<open>chip_id\<close> gave up on a bus failure, having
  issued the transactions \<open>ops\<close>: the error counter of the slot is one higher (modulo 256),
  the transactions are in the trace, nothing else differs.
\<close>

definition io_failed :: "driver_state \<Rightarrow> nat \<Rightarrow> i2c_op list \<Rightarrow> driver_state" where
  "io_failed d chip_id ops =
     d\<lparr>MCP23017_ic :=
         (MCP23017_ic d)[chip_id := (MCP23017_ic d ! chip_id)
                                      \<lparr>error_count := error_count (MCP23017_ic d ! chip_id) + 1\<rparr>],
       i2c_trace := i2c_trace d @ ops\<rparr>"

definition IODIR_of :: "MCP23017_port_e \<Rightarrow> 8 word" where
  "IODIR_of port =
     (if port = MCP23017_PORT_A then MPC23017_REGISTER_IODIR_A else MPC23017_REGISTER_IODIR_B)"

definition OLAT_of :: "MCP23017_port_e \<Rightarrow> 8 word" where
  "OLAT_of port =
     (if port = MCP23017_PORT_A then MPC23017_REGISTER_OLAT_A else MPC23017_REGISTER_OLAT_B)"

definition GPIO_of :: "MCP23017_port_e \<Rightarrow> 8 word" where
  "GPIO_of port =
     (if port = MCP23017_PORT_A then MPC23017_REGISTER_GPIO_A else MPC23017_REGISTER_GPIO_B)"

definition GPPU_of :: "MCP23017_port_e \<Rightarrow> 8 word" where
  "GPPU_of port =
     (if port = MCP23017_PORT_A then MPC23017_REGISTER_GPPU_A else MPC23017_REGISTER_GPPU_B)"

text \<open>The read-modify-write of a setter: clear the masked bits or set them.\<close>

definition masked :: "bool \<Rightarrow> 8 word \<Rightarrow> 8 word \<Rightarrow> 8 word" where
  "masked clear v pin = (if clear then v AND NOT pin else v OR pin)"

text \<open>
  \<^verbatim>\<open>MCP23017_init\<close>, and the driver state at power-up after it: \<open>n\<close> slots, none in use,
  nothing yet on the bus \<open>rp\<close>.
\<close>

definition MCP23017_init :: "driver_state \<Rightarrow> bool \<times> driver_state" where
  "MCP23017_init d =
     (True, d\<lparr>MCP23017_ic := map (\<lambda>ic. ic\<lparr>used := False, error_count := 0\<rparr>) (MCP23017_ic d)\<rparr>)"

definition driver_reset :: "(i2c_op list \<Rightarrow> 8 word option) \<Rightarrow> nat \<Rightarrow> driver_state" where
  "driver_reset rp n =
     snd (MCP23017_init
            \<lparr>MCP23017_ic = replicate n \<lparr>used = True, address = 0, I2Cx = 0, error_count = 0\<rparr>,
             i2c_reply = rp, i2c_trace = []\<rparr>)"

section \<open>Matrix scan (drivers/MatrixKeyboard/stm32g4_matrix_keyboard.c)\<close>

text \<open>
  The module state of the scan: the flag \<^verbatim>\<open>initialized\<close> and \<^verbatim>\<open>keyboard_chip_id\<close>. The
  settle delays (\<^verbatim>\<open>HAL_Delay\<close>) have no effect on the values and are left out.
\<close>

record keyboard_module =
  initialized :: bool
  keyboard_chip_id :: nat

text \<open>The loop that sets every column high (before and after the sweep).\<close>

definition all_columns_high :: "driver_state \<Rightarrow> nat \<Rightarrow> driver_state" where
  "all_columns_high d chip =
     fold (\<lambda>col d'. snd (MCP23017_setGPIO d' chip MCP23017_PORT_A (push_bit col 1)
                             MCP23017_PIN_STATE_HIGH))
          [0..<8] d"

text \<open>The loop that drives column \<open>col\<close> low and the other columns high.\<close>

definition strobe_column :: "driver_state \<Rightarrow> nat \<Rightarrow> nat \<Rightarrow> driver_state" where
  "strobe_column d chip col =
     fold (\<lambda>c d'. snd (MCP23017_setGPIO d' chip MCP23017_PORT_A (push_bit c 1)
                           (if c = col then MCP23017_PIN_STATE_LOW else MCP23017_PIN_STATE_HIGH)))
          [0..<8] d"

text \<open>
  The loop that samples the rows into \<^verbatim>\<open>port_b_value\<close>: the loop index \<^verbatim>\<open>pin\<close> itself is
  the pin argument of \<^verbatim>\<open>MCP23017_getGPIO\<close>, whose pointer argument is the address of a local
  variable. A call that returns \<^verbatim>\<open>false\<close> leaves the bit clear.
\<close>

definition read_rows :: "driver_state \<Rightarrow> nat \<Rightarrow> 8 word \<times> driver_state" where
  "read_rows d chip =
     fold (\<lambda>pin (port_b_value, d').
             case MCP23017_getGPIO d' chip MCP23017_PORT_B (of_nat pin) True of
               (Some pin_state, d'') \<Rightarrow>
                 (if pin_state = MCP23017_PIN_STATE_HIGH then port_b_value OR push_bit pin 1
                  else port_b_value, d'')
             | (None, d'') \<Rightarrow> (port_b_value, d''))
          [0..<8] (0, d)"

text \<open>The loop over the rows of one column: a row whose bit is clear is a pressed key.\<close>

definition analyse_rows :: "8 word \<Rightarrow> nat \<Rightarrow> 32 word \<Rightarrow> 32 word" where
  "analyse_rows port_b_value col state =
     fold (\<lambda>row st.
             if port_b_value AND push_bit row 1 = 0
             then (let key_index = row * 8 + col
                   in if key_index < 32 then st OR push_bit key_index 1 else st)
             else st)
          [0..<8] state"

definition MATRIX_KEYBOARD_read_all_touchs ::
  "keyboard_module \<Rightarrow> driver_state \<Rightarrow> 32 word \<times> driver_state" where
  "MATRIX_KEYBOARD_read_all_touchs k d =
     (if \<not> initialized k then (0, d)
      else
        let d1 = all_columns_high d (keyboard_chip_id k);
            (state, d2) =
               fold (\<lambda>col (state, d').
                       let d'' = strobe_column d' (keyboard_chip_id k) col;
                           (port_b_value, d''') = read_rows d'' (keyboard_chip_id k)
                       in (analyse_rows port_b_value col state, d'''))
                    [0..<8] (0, d1);
            d3 = all_columns_high d2 (keyboard_chip_id k)
        in (state, d3))"

subsection \<open>An ideal matrix on the bus\<close>

text \<open>
  The value of the port A output latch after the transactions \<open>t\<close>: the last byte written
  to the latch register, 0xFF (what the initialization writes) if there is none.
\<close>

definition olat_a_of :: "i2c_op list \<Rightarrow> 8 word" where
  "olat_a_of t =
     fold (\<lambda>x v. case x of
                    I2C_Write h a r b \<Rightarrow> if r = MPC23017_REGISTER_OLAT_A then b else v
                  | _ \<Rightarrow> v)
          t 0xFF"

text \<open>
  A device that acknowledges every transaction, reads the port A latch back as written and
  answers a read of the port B pins with \<open>rows v\<close>, where \<open>v\<close> is the column pattern on
  the port A latch: the fixed synthetic row/column response of the specification.
\<close>

definition matrix_device :: "(8 word \<Rightarrow> 8 word) \<Rightarrow> i2c_op list \<Rightarrow> 8 word option" where
  "matrix_device rows t =
     (case rev t of
        [] \<Rightarrow> None
      | I2C_Read h a r # past \<Rightarrow>
          Some (if r = MPC23017_REGISTER_GPIO_B then rows (olat_a_of (rev past))
                else if r = MPC23017_REGISTER_OLAT_A then olat_a_of (rev past)
                else 0x00)
      | _ # past \<Rightarrow> Some 0x00)"

text \<open>Only the key at row 2, column 3 is pressed: row 2 reads low exactly while column 3
  is driven low.\<close>

definition only_row2_col3 :: "8 word \<Rightarrow> 8 word" where
  "only_row2_col3 v = (if bit v 3 then 0xFF else 0xFB)"

text \<open>No key is pressed: every row reads high.\<close>

definition no_key :: "8 word \<Rightarrow> 8 word" where
  "no_key v = 0xFF"

text \<open>The driver with one registered chip at hardware address 0 on the bus \<open>rp\<close>.\<close>

definition driver_one_chip :: "(i2c_op list \<Rightarrow> 8 word option) \<Rightarrow> driver_state" where
  "driver_one_chip rp =
     \<lparr>MCP23017_ic = [\<lparr>used = True, address = 0x40, I2Cx = 0, error_count = 0\<rparr>],
      i2c_reply = rp, i2c_trace = []\<rparr>"

text \<open>
  The scan on the ideal matrix, without the bus: \<open>good rows d v\<close> says that \<open>d\<close> is the
  driver with its one chip on the ideal matrix \<open>rows\<close> and that the latch holds \<open>v\<close>;
  \<open>seen_rows b\<close> is the \<^verbatim>\<open>port_b_value\<close> that \<open>read_rows\<close> builds from the port byte \<open>b\<close>.
\<close>

definition good :: "(8 word \<Rightarrow> 8 word) \<Rightarrow> driver_state \<Rightarrow> 8 word \<Rightarrow> bool" where
  "good rows d v \<longleftrightarrow>
     MCP23017_ic d = [\<lparr>used = True, address = 0x40, I2Cx = 0, error_count = 0\<rparr>] \<and>
     i2c_reply d = matrix_device rows \<and> olat_a_of (i2c_trace d) = v"

definition seen_rows :: "8 word \<Rightarrow> 8 word" where
  "seen_rows b =
     fold (\<lambda>pin port_b_value.
             if b AND of_nat pin \<noteq> 0 then port_b_value OR push_bit pin 1 else port_b_value)
          [0..<8] 0"

definition strobe_value :: "nat \<Rightarrow> 8 word \<Rightarrow> 8 word" where
  "strobe_value col v = fold (\<lambda>c v'. masked (c = col) v' (push_bit c 1)) [0..<8] v"

definition idle_value :: "8 word \<Rightarrow> 8 word" where
  "idle_value v = fold (\<lambda>c v'. masked False v' (push_bit c 1)) [0..<8] v"

definition scan_ideal :: "(8 word \<Rightarrow> 8 word) \<Rightarrow> 8 word \<Rightarrow> 32 word" where
  "scan_ideal rows v =
     fst (fold (\<lambda>col (state, v').
                  let v'' = strobe_value col v'
                  in (analyse_rows (seen_rows (rows v'')) col state, v''))
               [0..<8] (0, idle_value v))"

text \<open>Two buses for the failure paths: one on which every transaction fails, one on which
  reads succeed and writes fail.\<close>

definition dead_bus :: "i2c_op list \<Rightarrow> 8 word option" where
  "dead_bus t = None"

definition write_failing_bus :: "i2c_op list \<Rightarrow> 8 word option" where
  "write_failing_bus t =
     (case rev t of
        [] \<Rightarrow> None
      | I2C_Read h a r # past \<Rightarrow> Some 0xFF
      | _ # past \<Rightarrow> None)"

section \<open>Properties of the debounce state machine\<close>

lemma pressed_iff_bit: "(w AND key_mask i \<noteq> 0) = bit w i"
  by (simp add: key_mask_def bit_iff_and_push_bit_not_eq_0)

lemma bit_set_key: "bit (w OR key_mask i) j \<longleftrightarrow> bit w j \<or> (j = i \<and> i < 32)"
  by (auto simp: key_mask_def bit_simps)

lemma bit_clear_key: "bit (w AND NOT (key_mask i)) j \<longleftrightarrow> bit w j \<and> j \<noteq> i"
  by (auto simp: key_mask_def bit_simps dest: bit_imp_le_length)

lemma debounce_key_length [simp]:
  "length (debounce_counter (debounce_key raw i s)) = length (debounce_counter s)"
  by (simp add: debounce_key_def Let_def)

lemma debounce_key_previous [simp]:
  "previous_state (debounce_key raw i s) = previous_state s"
  by (simp add: debounce_key_def Let_def)

lemma debounce_key_same:
  assumes "i < length (debounce_counter s)"
  shows "key_view (debounce_key raw i s) i = key_step (bit raw i) (key_view s i)"
  using assms
  by (auto simp: debounce_key_def key_view_def key_step_def Let_def pressed_iff_bit
      bit_set_key bit_clear_key dest: bit_imp_le_length)

lemma debounce_key_other:
  assumes "j \<noteq> i"
  shows "key_view (debounce_key raw i s) j = key_view s j"
  using assms
  by (auto simp: debounce_key_def key_view_def Let_def pressed_iff_bit
      bit_set_key bit_clear_key)


lemma fold_debounce_length [simp]:
  "length (debounce_counter (fold (debounce_key raw) xs s)) = length (debounce_counter s)"
  by (induction xs arbitrary: s) simp_all

lemma fold_debounce_previous [simp]:
  "previous_state (fold (debounce_key raw) xs s) = previous_state s"
  by (induction xs arbitrary: s) simp_all

lemma fold_debounce_notin:
  "j \<notin> set xs \<Longrightarrow> key_view (fold (debounce_key raw) xs s) j = key_view s j"
  by (induction xs arbitrary: s) (simp_all add: debounce_key_other)

lemma fold_debounce_in:
  "distinct xs \<Longrightarrow> j \<in> set xs \<Longrightarrow> j < length (debounce_counter s) \<Longrightarrow>
   key_view (fold (debounce_key raw) xs s) j = key_step (bit raw j) (key_view s j)"
proof (induction xs arbitrary: s)
  case Nil
  then show ?case by simp
next
  case (Cons x xs)
  show ?case
  proof (cases "x = j")
    case True
    with Cons.prems have "j \<notin> set xs" by simp
    then show ?thesis
      using True Cons.prems(3) by (simp add: fold_debounce_notin debounce_key_same)
  next
    case False
    with Cons.prems have "j \<in> set xs" "distinct xs" by simp_all
    then show ?thesis
      using False Cons.IH [of "debounce_key raw x s"] Cons.prems(3)
      by (simp add: debounce_key_other)
  qed
qed

lemma key_view_cong:
  "stable_state s = stable_state t \<Longrightarrow> debounce_counter s = debounce_counter t \<Longrightarrow>
   key_view s = key_view t"
  by (simp add: key_view_def fun_eq_iff)

lemma Update_key_view:
  assumes "kbd_wf s" "i < 64"
  shows "key_view (Update_Keyboard_State s raw) i = key_step (bit raw i) (key_view s i)"
proof -
  let ?s1 = "s\<lparr>previous_state := stable_state s\<rparr>"
  let ?s2 = "fold (debounce_key raw) [0..<64] ?s1"
  have "key_view (Update_Keyboard_State s raw) i = key_view ?s2 i"
    by (simp add: Update_Keyboard_State_def MAX_MATRIX_KEYS_def Let_def key_view_def)
  also have "\<dots> = key_step (bit raw i) (key_view ?s1 i)"
    using assms by (intro fold_debounce_in) (simp_all add: kbd_wf_def)
  also have "key_view ?s1 i = key_view s i"
    by (simp add: key_view_def)
  finally show ?thesis .
qed

lemma Update_wf: "kbd_wf s \<Longrightarrow> kbd_wf (Update_Keyboard_State s raw)"
  by (simp add: kbd_wf_def Update_Keyboard_State_def Let_def)

lemma Update_previous: "previous_state (Update_Keyboard_State s raw) = stable_state s"
  by (simp add: Update_Keyboard_State_def Let_def)

lemma Update_current:
  "current_state (Update_Keyboard_State s raw) = stable_state (Update_Keyboard_State s raw)"
  by (simp add: Update_Keyboard_State_def Let_def)

lemma run_updates_wf: "kbd_wf s \<Longrightarrow> kbd_wf (run_updates s raws)"
  unfolding run_updates_def by (induction raws arbitrary: s) (simp_all add: Update_wf)

lemma key_step_counter_le: "snd (key_step r v) \<le> 2"
  apply (simp add: key_step_def DEBOUNCE_COUNT_def)
  apply (simp add: word_le_nat_alt not_le word_less_nat_alt)
  done

lemma run_updates_snoc:
  "run_updates s (raws @ [r]) = Update_Keyboard_State (run_updates s raws) r"
  by (simp add: run_updates_def)

lemma run_updates_Cons:
  "run_updates s (r # raws) = run_updates (Update_Keyboard_State s r) raws"
  by (simp add: run_updates_def)

lemma Update_counter_le:
  assumes "kbd_wf s" "i < 64"
  shows "debounce_counter (Update_Keyboard_State s raw) ! i \<le> 2"
proof -
  have "snd (key_view (Update_Keyboard_State s raw) i) \<le> 2"
    using assms by (simp add: Update_key_view key_step_counter_le)
  then show ?thesis by (simp add: key_view_def)
qed

lemma kbd_wf_zero: "kbd_wf keyboard_state_zero"
  by (simp add: kbd_wf_def keyboard_state_zero_def)

text \<open>
  Claim C10. Starting from the zeroed keyboard state, after any sequence of calls of
  \<^verbatim>\<open>Update_Keyboard_State\<close>, whatever the raw scan inputs, every counter of a key \<open>0..63\<close>
  is at most 2 and \<^verbatim>\<open>current_state\<close> equals \<^verbatim>\<open>stable_state\<close>.
\<close>

theorem C10_debounce_invariant:
  "(\<forall>i<64. debounce_counter (run_updates keyboard_state_zero raws) ! i \<le> 2) \<and>
   current_state (run_updates keyboard_state_zero raws) =
     stable_state (run_updates keyboard_state_zero raws)"
proof (cases raws rule: rev_cases)
  case Nil
  then show ?thesis
    by (simp add: run_updates_def keyboard_state_zero_def)
next
  case (snoc raws' r)
  have "kbd_wf (run_updates keyboard_state_zero raws')"
    by (rule run_updates_wf [OF kbd_wf_zero])
  then show ?thesis
    unfolding snoc run_updates_snoc
    by (simp add: Update_counter_le Update_current)
qed

theorem C10_debounce_invariant_witness:
  "debounce_counter (run_updates keyboard_state_zero [1, 1, 1, 0]) ! 0 \<le> 2 \<and>
   current_state (run_updates keyboard_state_zero [1, 1, 1, 0]) =
     stable_state (run_updates keyboard_state_zero [1, 1, 1, 0])"
  using C10_debounce_invariant [of "[1, 1, 1, 0]"] by simp

lemma key_step_disagree:
  "r \<noteq> b \<Longrightarrow> unat c + 1 < 3 \<Longrightarrow> key_step r (b, c) = (b, c + 1)"
  apply (simp add: key_step_def DEBOUNCE_COUNT_def)
  apply (simp add: word_le_nat_alt unat_word_ariths)
  done

lemma key_step_commit:
  "r \<noteq> b \<Longrightarrow> c = 2 \<Longrightarrow> key_step r (b, c) = (r, 0)"
  by (simp add: key_step_def DEBOUNCE_COUNT_def)

lemma key_step_agree: "r = b \<Longrightarrow> key_step r (b, c) = (b, 0)"
  by (simp add: key_step_def)

lemma run_disagree:
  assumes "kbd_wf s" "i < 64"
    and "unat (debounce_counter s ! i) + length rs < 3"
    and "\<forall>r\<in>set rs. bit r i \<noteq> bit (stable_state s) i"
  shows "key_view (run_updates s rs) i =
           (bit (stable_state s) i, debounce_counter s ! i + of_nat (length rs))"
  using assms
proof (induction rs arbitrary: s)
  case Nil
  then show ?case by (simp add: run_updates_def key_view_def)
next
  case (Cons r rs)
  let ?s' = "Update_Keyboard_State s r"
  have c: "unat (debounce_counter s ! i) + 1 < 3"
    using Cons.prems(3) by simp
  have "bit r i \<noteq> bit (stable_state s) i"
    using Cons.prems(4) by simp
  then have "key_step (bit r i) (bit (stable_state s) i, debounce_counter s ! i) =
      (bit (stable_state s) i, debounce_counter s ! i + 1)"
    using c by (rule key_step_disagree)
  moreover have "key_view ?s' i = key_step (bit r i) (key_view s i)"
    using Cons.prems(1,2) by (rule Update_key_view)
  ultimately have kv: "key_view ?s' i = (bit (stable_state s) i, debounce_counter s ! i + 1)"
    by (simp add: key_view_def)
  then have st: "bit (stable_state ?s') i = bit (stable_state s) i"
    and cn: "debounce_counter ?s' ! i = debounce_counter s ! i + 1"
    by (simp_all add: key_view_def)
  have "unat (debounce_counter s ! i + 1) = unat (debounce_counter s ! i) + 1"
    using c by (simp add: unat_word_ariths)
  then have "unat (debounce_counter ?s' ! i) + length rs < 3"
    using Cons.prems(3) cn by simp
  moreover have "\<forall>r\<in>set rs. bit r i \<noteq> bit (stable_state ?s') i"
    using Cons.prems(4) st by simp
  ultimately have "key_view (run_updates ?s' rs) i =
      (bit (stable_state ?s') i, debounce_counter ?s' ! i + of_nat (length rs))"
    using Cons.IH [of ?s'] Cons.prems(1,2) by (simp add: Update_wf)
  then show ?case
    by (simp add: run_updates_Cons st cn add.assoc add.commute)
qed

lemma stable_bit_high: "32 \<le> n \<Longrightarrow> \<not> bit (w :: 32 word) n"
  by (auto dest: bit_imp_le_length)

lemma key_step_idle: "r = fst v \<Longrightarrow> fst (key_step r v) = fst v"
  by (simp add: key_step_def)

lemma fst_key_view: "fst (key_view s j) = bit (stable_state s) j"
  by (simp add: key_view_def)

text \<open>
  Claim C3. Key \<open>i\<close> has seen fewer than three disagreeing reads in a row: its counter
  (the disagreeing reads so far, 0 at the start of an episode) plus the number of further
  cycles \<open>rs\<close> in which raw bit \<open>i\<close> disagrees with stable bit \<open>i\<close> is below 3. Then stable
  bit \<open>i\<close> is the same after every one of these cycles, the counter has counted them, and
  one agreeing read afterwards leaves stable bit \<open>i\<close> as it was and sets the counter to 0,
  whatever it had reached.
\<close>

theorem C3_short_bounce_rejected:
  assumes "kbd_wf s" and "i < 64"
    and "unat (debounce_counter s ! i) + length rs < 3"
    and "\<forall>r\<in>set rs. bit r i \<noteq> bit (stable_state s) i"
    and "bit r_agree i = bit (stable_state s) i"
  shows "(\<forall>k\<le>length rs. bit (stable_state (run_updates s (take k rs))) i = bit (stable_state s) i) \<and>
         unat (debounce_counter (run_updates s rs) ! i) = unat (debounce_counter s ! i) + length rs \<and>
         bit (stable_state (Update_Keyboard_State (run_updates s rs) r_agree)) i
           = bit (stable_state s) i \<and>
         debounce_counter (Update_Keyboard_State (run_updates s rs) r_agree) ! i = 0"
proof -
  have pre: "key_view (run_updates s (take k rs)) i =
      (bit (stable_state s) i, debounce_counter s ! i + of_nat (length (take k rs)))" for k
  proof (rule run_disagree [OF assms(1,2)])
    show "unat (debounce_counter s ! i) + length (take k rs) < 3"
      using assms(3) by simp
    show "\<forall>r\<in>set (take k rs). bit r i \<noteq> bit (stable_state s) i"
      using assms(4) by (auto dest: in_set_takeD)
  qed
  have all: "key_view (run_updates s rs) i =
      (bit (stable_state s) i, debounce_counter s ! i + of_nat (length rs))"
    using pre [of "length rs"] by simp
  have cnt: "unat (debounce_counter s ! i + of_nat (length rs)) =
      unat (debounce_counter s ! i) + length rs"
    using assms(3) by (simp add: unat_word_ariths unat_of_nat)
  have "key_view (Update_Keyboard_State (run_updates s rs) r_agree) i =
      key_step (bit r_agree i) (key_view (run_updates s rs) i)"
    using run_updates_wf [OF assms(1)] assms(2) by (rule Update_key_view)
  also have "\<dots> = (bit (stable_state s) i, 0)"
    unfolding all using assms(5) by (simp add: key_step_agree)
  finally have fin: "key_view (Update_Keyboard_State (run_updates s rs) r_agree) i =
      (bit (stable_state s) i, 0)" .
  show ?thesis
    using pre all cnt fin by (simp add: key_view_def)
qed

text \<open>
  Claim C2. For a key \<open>i\<close> of \<open>0..63\<close> whose counter is 0, three update cycles in a row in
  which raw bit \<open>i\<close> is the opposite of the current stable bit \<open>i\<close>: the first two leave
  stable bit \<open>i\<close> alone and count 1 and 2; the third sets stable bit \<open>i\<close> to the raw value
  and the counter back to 0. Every other key moves by its own state machine on its own raw
  bits, whatever key \<open>i\<close> does; when the other keys read as their stable bits say, the
  stable bitmap after the third cycle differs from the one before in bit \<open>i\<close> only.
\<close>

theorem C2_three_reads_commit:
  assumes "kbd_wf s" and "i < 64" and "debounce_counter s ! i = 0"
    and "s1 = Update_Keyboard_State s r1"
    and "s2 = Update_Keyboard_State s1 r2"
    and "s3 = Update_Keyboard_State s2 r3"
    and "bit r1 i \<noteq> bit (stable_state s) i"
    and "bit r2 i \<noteq> bit (stable_state s1) i"
    and "bit r3 i \<noteq> bit (stable_state s2) i"
  shows "(bit (stable_state s1) i = bit (stable_state s) i \<and> debounce_counter s1 ! i = 1) \<and>
         (bit (stable_state s2) i = bit (stable_state s) i \<and> debounce_counter s2 ! i = 2) \<and>
         (bit (stable_state s3) i = bit r3 i \<and> bit (stable_state s3) i \<noteq> bit (stable_state s) i \<and>
          debounce_counter s3 ! i = 0) \<and>
         (\<forall>j<64. j \<noteq> i \<longrightarrow>
            key_view s3 j =
              key_step (bit r3 j) (key_step (bit r2 j) (key_step (bit r1 j) (key_view s j)))) \<and>
         ((\<forall>j<32. j \<noteq> i \<longrightarrow> bit r1 j = bit (stable_state s) j \<and> bit r2 j = bit (stable_state s) j
              \<and> bit r3 j = bit (stable_state s) j) \<longrightarrow>
            stable_state s1 = stable_state s \<and> stable_state s2 = stable_state s \<and>
            stable_state s3 = stable_state s XOR key_mask i)"
proof -
  have wf1: "kbd_wf s1" and wf2: "kbd_wf s2"
    using assms(1,4,5) by (simp_all add: Update_wf)
  have kv1: "key_view s1 j = key_step (bit r1 j) (key_view s j)" if "j < 64" for j
    unfolding assms(4) using assms(1) that by (rule Update_key_view)
  have kv2: "key_view s2 j = key_step (bit r2 j) (key_view s1 j)" if "j < 64" for j
    unfolding assms(5) using wf1 that by (rule Update_key_view)
  have kv3: "key_view s3 j = key_step (bit r3 j) (key_view s2 j)" if "j < 64" for j
    unfolding assms(6) using wf2 that by (rule Update_key_view)
  have v0: "key_view s i = (bit (stable_state s) i, 0)"
    using assms(3) by (simp add: key_view_def)
  have v1: "key_view s1 i = (bit (stable_state s) i, 1)"
    using kv1 [OF assms(2)] assms(7) key_step_disagree [of "bit r1 i" "bit (stable_state s) i" 0]
    by (simp add: v0)
  then have b1: "bit (stable_state s1) i = bit (stable_state s) i"
    by (simp add: key_view_def)
  have v2: "key_view s2 i = (bit (stable_state s) i, 2)"
    using kv2 [OF assms(2)] assms(8) b1 key_step_disagree [of "bit r2 i" "bit (stable_state s) i" 1]
    by (simp add: v1)
  then have b2: "bit (stable_state s2) i = bit (stable_state s) i"
    by (simp add: key_view_def)
  have v3: "key_view s3 i = (bit r3 i, 0)"
    using kv3 [OF assms(2)] assms(9) b2 key_step_commit [of "bit r3 i" "bit (stable_state s) i" 2]
    by (simp add: v2)
  have part1: "bit (stable_state s1) i = bit (stable_state s) i \<and> debounce_counter s1 ! i = 1"
    using v1 by (simp add: key_view_def)
  have part2: "bit (stable_state s2) i = bit (stable_state s) i \<and> debounce_counter s2 ! i = 2"
    using v2 by (simp add: key_view_def)
  have part3: "bit (stable_state s3) i = bit r3 i \<and>
      bit (stable_state s3) i \<noteq> bit (stable_state s) i \<and> debounce_counter s3 ! i = 0"
    using v3 assms(9) b2 by (simp add: key_view_def)
  have part4: "\<forall>j<64. j \<noteq> i \<longrightarrow> key_view s3 j =
      key_step (bit r3 j) (key_step (bit r2 j) (key_step (bit r1 j) (key_view s j)))"
    by (simp add: kv1 kv2 kv3)
  have part5: "stable_state s1 = stable_state s \<and> stable_state s2 = stable_state s \<and>
      stable_state s3 = stable_state s XOR key_mask i"
    if idle: "\<forall>j<32. j \<noteq> i \<longrightarrow> bit r1 j = bit (stable_state s) j \<and>
        bit r2 j = bit (stable_state s) j \<and> bit r3 j = bit (stable_state s) j"
  proof -
    have i32: "i < 32"
    proof (rule ccontr)
      assume "\<not> i < 32"
      then have "\<not> bit r1 i" and "\<not> bit (stable_state s) i"
        by (simp_all add: stable_bit_high)
      with assms(7) show False by simp
    qed
    have o1: "bit (stable_state s1) j = bit (stable_state s) j" if "j < 32" "j \<noteq> i" for j
    proof -
      have "bit r1 j = fst (key_view s j)"
        using that idle by (simp add: key_view_def)
      then have "fst (key_step (bit r1 j) (key_view s j)) = fst (key_view s j)"
        by (rule key_step_idle)
      moreover have "key_view s1 j = key_step (bit r1 j) (key_view s j)"
        using that(1) by (intro kv1) simp
      ultimately have "fst (key_view s1 j) = fst (key_view s j)" by simp
      then show ?thesis by (simp only: fst_key_view)
    qed
    have o2: "bit (stable_state s2) j = bit (stable_state s) j" if "j < 32" "j \<noteq> i" for j
    proof -
      have "bit r2 j = fst (key_view s1 j)"
        using that idle o1 [OF that] by (simp add: key_view_def)
      then have "fst (key_step (bit r2 j) (key_view s1 j)) = fst (key_view s1 j)"
        by (rule key_step_idle)
      moreover have "key_view s2 j = key_step (bit r2 j) (key_view s1 j)"
        using that(1) by (intro kv2) simp
      ultimately have "fst (key_view s2 j) = fst (key_view s1 j)" by simp
      then show ?thesis using o1 [OF that] by (simp only: fst_key_view)
    qed
    have o3: "bit (stable_state s3) j = bit (stable_state s) j" if "j < 32" "j \<noteq> i" for j
    proof -
      have "bit r3 j = fst (key_view s2 j)"
        using that idle o2 [OF that] by (simp add: key_view_def)
      then have "fst (key_step (bit r3 j) (key_view s2 j)) = fst (key_view s2 j)"
        by (rule key_step_idle)
      moreover have "key_view s3 j = key_step (bit r3 j) (key_view s2 j)"
        using that(1) by (intro kv3) simp
      ultimately have "fst (key_view s3 j) = fst (key_view s2 j)" by simp
      then show ?thesis using o2 [OF that] by (simp only: fst_key_view)
    qed
    have e1: "stable_state s1 = stable_state s"
    proof (rule bit_word_eqI)
      fix n assume "n < LENGTH(32)"
      then show "bit (stable_state s1) n = bit (stable_state s) n"
        using o1 [of n] b1 by (cases "n = i") simp_all
    qed
    have e2: "stable_state s2 = stable_state s"
    proof (rule bit_word_eqI)
      fix n assume "n < LENGTH(32)"
      then show "bit (stable_state s2) n = bit (stable_state s) n"
        using o2 [of n] b2 by (cases "n = i") simp_all
    qed
    have e3: "stable_state s3 = stable_state s XOR key_mask i"
    proof (rule bit_word_eqI)
      fix n assume "n < LENGTH(32)"
      then show "bit (stable_state s3) n = bit (stable_state s XOR key_mask i) n"
        using o3 [of n] part3 i32
        by (cases "n = i") (auto simp: key_mask_def bit_simps)
    qed
    show ?thesis using e1 e2 e3 by simp
  qed
  show ?thesis
    using part1 part2 part3 part4 part5 by blast
qed

lemma key_view_zero: "i < 64 \<Longrightarrow> key_view keyboard_state_zero i = (False, 0)"
  by (simp add: key_view_def keyboard_state_zero_def)

lemma Update_stable_bit:
  assumes "kbd_wf s" "i < 64" "key_step (bit raw i) (key_view s i) = (b, c)"
  shows "bit (stable_state (Update_Keyboard_State s raw)) i = b"
    and "debounce_counter (Update_Keyboard_State s raw) ! i = c"
  using Update_key_view [OF assms(1,2), of raw] assms(3)
  by (simp_all add: key_view_def)

theorem C2_three_reads_commit_witness:
  "stable_state (Update_Keyboard_State (Update_Keyboard_State
       (Update_Keyboard_State keyboard_state_zero 1) 1) 1) = 1 \<and>
   debounce_counter (Update_Keyboard_State (Update_Keyboard_State
       (Update_Keyboard_State keyboard_state_zero 1) 1) 1) ! 0 = 0"
proof -
  let ?s1 = "Update_Keyboard_State keyboard_state_zero 1"
  let ?s2 = "Update_Keyboard_State ?s1 1"
  let ?s3 = "Update_Keyboard_State ?s2 1"
  have wf1: "kbd_wf ?s1" by (intro Update_wf kbd_wf_zero)
  have c0: "debounce_counter keyboard_state_zero ! 0 = 0"
    by (simp add: keyboard_state_zero_def)
  have st0: "stable_state keyboard_state_zero = 0"
    by (simp add: keyboard_state_zero_def)
  have k1: "key_step (bit (1 :: 32 word) 0) (key_view keyboard_state_zero 0) = (False, 1)"
    using key_step_disagree [of True False 0] by (simp add: key_view_zero)
  have b1: "bit (stable_state ?s1) 0 = False" and c1: "debounce_counter ?s1 ! 0 = 1"
    using Update_stable_bit [OF kbd_wf_zero _ k1] by simp_all
  have k2: "key_step (bit (1 :: 32 word) 0) (key_view ?s1 0) = (False, 2)"
    using key_step_disagree [of True False 1] by (simp add: key_view_def b1 c1)
  have b2: "bit (stable_state ?s2) 0 = False"
    using Update_stable_bit(1) [OF wf1 _ k2] by simp
  have h1: "bit (1 :: 32 word) 0 \<noteq> bit (stable_state keyboard_state_zero) 0"
    by (simp add: st0)
  have h2: "bit (1 :: 32 word) 0 \<noteq> bit (stable_state ?s1) 0"
    by (simp add: b1)
  have h3: "bit (1 :: 32 word) 0 \<noteq> bit (stable_state ?s2) 0"
    by (simp add: b2)
  have idle: "\<forall>j<32. j \<noteq> 0 \<longrightarrow>
      bit (1 :: 32 word) j = bit (stable_state keyboard_state_zero) j \<and>
      bit (1 :: 32 word) j = bit (stable_state keyboard_state_zero) j \<and>
      bit (1 :: 32 word) j = bit (stable_state keyboard_state_zero) j"
    by (simp add: st0 bit_1_iff)
  show ?thesis
    using C2_three_reads_commit [OF kbd_wf_zero _ c0 refl refl refl h1 h2 h3] idle
    by (simp add: st0 key_mask_def)
qed

theorem C3_short_bounce_rejected_witness:
  "bit (stable_state (Update_Keyboard_State (run_updates keyboard_state_zero [1, 1]) 0)) 0
     = bit (stable_state keyboard_state_zero) 0 \<and>
   unat (debounce_counter (run_updates keyboard_state_zero [1, 1]) ! 0) = 2 \<and>
   debounce_counter (Update_Keyboard_State (run_updates keyboard_state_zero [1, 1]) 0) ! 0 = 0"
proof -
  have c: "unat (debounce_counter keyboard_state_zero ! 0) + length [1, 1 :: 32 word] < 3"
    by (simp add: keyboard_state_zero_def)
  have d: "\<forall>r\<in>set [1, 1 :: 32 word]. bit r 0 \<noteq> bit (stable_state keyboard_state_zero) 0"
    by (simp add: keyboard_state_zero_def)
  have a: "bit (0 :: 32 word) 0 = bit (stable_state keyboard_state_zero) 0"
    by (simp add: keyboard_state_zero_def)
  show ?thesis
    using C3_short_bounce_rejected [OF kbd_wf_zero _ c d a]
    by (simp add: keyboard_state_zero_def)
qed

section \<open>Properties of change detection and of the MIDI encoder\<close>

lemma fold_putc:
  "n \<le> length bs \<Longrightarrow>
   fold (\<lambda>i m'. BSP_UART_putc m' (bs ! i)) [0..<n] m = m\<lparr>uart_tx := uart_tx m @ take n bs\<rparr>"
proof (induction n)
  case 0
  then show ?case by simp
next
  case (Suc n)
  then show ?case
    by (simp add: BSP_UART_putc_def take_Suc_conv_app_nth)
qed

lemma MIDI_send_raw_all:
  assumes "midi_initialized m" "bs \<noteq> []" "unat len = length bs"
  shows "MIDI_send_raw m (Some bs) len = m\<lparr>uart_tx := uart_tx m @ bs\<rparr>"
proof -
  have "len \<noteq> 0" using assms(2,3) by auto
  then show ?thesis
    using assms by (simp add: MIDI_send_raw_def fold_putc)
qed

lemma MIDI_send_raw_3:
  "midi_initialized m \<Longrightarrow>
   MIDI_send_raw m (Some [a, b, c]) 3 = m\<lparr>uart_tx := uart_tx m @ [a, b, c]\<rparr>"
  by (rule MIDI_send_raw_all) simp_all

lemma MIDI_send_raw_2:
  "midi_initialized m \<Longrightarrow>
   MIDI_send_raw m (Some [a, b]) 2 = m\<lparr>uart_tx := uart_tx m @ [a, b]\<rparr>"
  by (rule MIDI_send_raw_all) simp_all

lemma midi_notes_length: "length midi_notes = 64"
  by (simp add: midi_notes_def)

lemma midi_notes_all_le: "\<forall>x\<in>set midi_notes. x \<le> 127"
  by (simp add: midi_notes_def)

lemma midi_notes_le: "i < 64 \<Longrightarrow> midi_notes ! i \<le> 127"
  using midi_notes_all_le midi_notes_length by (metis nth_mem)

lemma Send_MIDI_Note_tx:
  assumes "midi_initialized m" "i < 64"
  shows "Send_MIDI_Note m (int i) pressed = m\<lparr>uart_tx := uart_tx m @ key_message pressed i\<rparr>"
proof -
  have "\<not> midi_notes ! i > 127"
    using midi_notes_le [OF assms(2)] by (simp add: not_less)
  then show ?thesis
    using assms
    by (simp add: Send_MIDI_Note_def MAX_MATRIX_KEYS_def Let_def MIDI_send_note_on_def
        MIDI_send_note_off_def MIDI_send_raw_3 key_message_def MIDI_NOTE_ON_def MIDI_NOTE_OFF_def)
qed

lemma Process_fold:
  assumes "midi_initialized m" "\<forall>i\<in>set xs. i < 64"
  shows "midi_initialized
           (fold (\<lambda>i m'. if changes AND key_mask i \<noteq> 0
                          then Send_MIDI_Note m' (int i) (cur AND key_mask i \<noteq> 0) else m') xs m) \<and>
         uart_tx
           (fold (\<lambda>i m'. if changes AND key_mask i \<noteq> 0
                          then Send_MIDI_Note m' (int i) (cur AND key_mask i \<noteq> 0) else m') xs m) =
         uart_tx m @ concat (map (\<lambda>i. key_message (bit cur i) i) (filter (bit changes) xs))"
  using assms
proof (induction xs arbitrary: m)
  case Nil
  then show ?case by simp
next
  case (Cons x xs)
  have x: "x < 64" using Cons.prems(2) by simp
  show ?case
  proof (cases "bit changes x")
    case True
    let ?m1 = "m\<lparr>uart_tx := uart_tx m @ key_message (bit cur x) x\<rparr>"
    have "midi_initialized ?m1" using Cons.prems(1) by simp
    moreover have "\<forall>i\<in>set xs. i < 64" using Cons.prems(2) by simp
    ultimately show ?thesis
      using Cons.IH [of ?m1] True Send_MIDI_Note_tx [OF Cons.prems(1) x]
      by (simp add: pressed_iff_bit)
  next
    case False
    moreover have "\<forall>i\<in>set xs. i < 64" using Cons.prems(2) by simp
    ultimately show ?thesis
      using Cons.IH [of m] Cons.prems(1) by (simp add: pressed_iff_bit)
  qed
qed

lemma Process_Key_Changes_tx:
  assumes "midi_initialized m"
  shows "uart_tx (Process_Key_Changes kbd m) =
         uart_tx m @ concat (map (\<lambda>i. key_message (bit (current_state kbd) i) i)
                               (filter (bit (key_changes kbd)) [0..<64]))"
proof (cases "key_changes kbd = 0")
  case True
  then show ?thesis by (simp add: Process_Key_Changes_def)
next
  case False
  then show ?thesis
    using Process_fold [OF assms, of "[0..<64]" "key_changes kbd" "current_state kbd"]
    by (simp add: Process_Key_Changes_def MAX_MATRIX_KEYS_def Let_def)
qed

lemma Process_Key_Changes_initialized:
  assumes "midi_initialized m"
  shows "midi_initialized (Process_Key_Changes kbd m)"
proof (cases "key_changes kbd = 0")
  case True
  then show ?thesis using assms by (simp add: Process_Key_Changes_def)
next
  case False
  then show ?thesis
    using Process_fold [OF assms, of "[0..<64]" "key_changes kbd" "current_state kbd"]
    by (simp add: Process_Key_Changes_def MAX_MATRIX_KEYS_def Let_def)
qed

lemma MIDI_init_result:
  "MIDI_init m = \<lparr>midi_initialized = True, uart_tx = uart_tx m @ [0xB0, 123, 0]\<rparr>"
  by (simp add: MIDI_init_def MIDI_send_all_notes_off_def MIDI_send_control_change_def
      MIDI_send_raw_3 MIDI_CONTROL_CHANGE_def MIDI_CC_ALL_NOTES_OFF_def)

text \<open>
  Claim C1. In a cycle of the pipeline that is due, with the MIDI module initialised (as
  \<^verbatim>\<open>main\<close> does before its loop): the change set that \<^verbatim>\<open>Process_Key_Changes\<close> computes
  is the XOR of the new stable bitmap with the stable bitmap at the start of the cycle, and
  the bytes handed to the transport in this cycle are, for the key indices of \<open>0..63\<close>
  whose bit is set in that XOR, in ascending order, one three-byte message each: Note On
  with status \<open>0x90 OR (channel - 1)\<close> if the new stable bit is 1, Note Off with status
  \<open>0x80 OR (channel - 1)\<close> if it is 0, on channel 1. Keys whose bit did not change
  contribute nothing. The module stays initialised.
\<close>

theorem C1_cycle_messages:
  assumes "midi_initialized (midi a)"
    and "KEYBOARD_SCAN_PERIOD_MS \<le> current_tick - keyboard_last_scan a"
    and "a' = Keyboard_MIDI_Process current_tick raw_state a"
    and "old = stable_state (keyboard_state a)"
    and "new = stable_state (keyboard_state a')"
  shows "key_changes (keyboard_state a') = new XOR old \<and>
         midi_initialized (midi a') \<and>
         uart_tx (midi a') =
           uart_tx (midi a) @
           concat (map (\<lambda>i. if bit new i then [0x90 OR (1 - 1), midi_notes ! i, 100]
                             else [0x80 OR (1 - 1), midi_notes ! i, 0])
                       (filter (\<lambda>i. bit (new XOR old) i) [0..<64]))"
proof -
  let ?kbd = "Update_Keyboard_State (keyboard_state a) raw_state"
  have k: "keyboard_state a' = ?kbd"
    and m: "midi a' = Process_Key_Changes ?kbd (midi a)"
    using assms(2,3) by (simp_all add: Keyboard_MIDI_Process_def Let_def)
  have ch: "key_changes ?kbd = stable_state ?kbd XOR stable_state (keyboard_state a)"
    by (simp add: key_changes_def Update_previous Update_current)
  have "uart_tx (midi a') = uart_tx (midi a) @
      concat (map (\<lambda>i. key_message (bit (current_state ?kbd) i) i)
                  (filter (bit (key_changes ?kbd)) [0..<64]))"
    unfolding m using assms(1) by (rule Process_Key_Changes_tx)
  moreover have "midi_initialized (midi a')"
    unfolding m using assms(1) by (rule Process_Key_Changes_initialized)
  ultimately show ?thesis
    using ch k assms(4,5) by (simp add: Update_current key_message_def)
qed

lemma uint_bend: "uint ((v :: 16 word) + 8192) = (sint v + 8192) mod 65536"
proof -
  have "uint (v + 8192) = (uint v + 8192) mod 65536"
    by (simp add: uint_word_ariths)
  also have "uint v = sint v mod 65536"
    by (simp add: uint_sint [of v] take_bit_eq_mod)
  finally show ?thesis
    by (simp add: mod_add_left_eq)
qed

lemma bend_in_range:
  assumes "- 8192 \<le> sint (v :: 16 word)" "sint v \<le> 8191"
  shows "\<not> v + 8192 > 16383"
proof -
  have "(sint v + 8192) mod 65536 = sint v + 8192"
    using assms by simp
  then have "uint (v + 8192) \<le> 16383"
    using assms by (simp add: uint_bend)
  then show ?thesis
    by (simp add: word_less_def)
qed

lemma bend_above:
  assumes "8191 < sint (v :: 16 word)"
  shows "v + 8192 > 16383"
proof -
  have "sint v < 32768"
    using sint_lt [of v] by simp
  then have "(sint v + 8192) mod 65536 = sint v + 8192"
    using assms by simp
  then have "16383 < uint (v + 8192)"
    using assms by (simp add: uint_bend)
  then show ?thesis
    by (simp add: word_less_def)
qed

lemma low7_16383: "(ucast ((16383 :: 16 word) AND 0x7F) :: 8 word) = 0x7F"
  by simp

lemma high7_16383: "(ucast (drop_bit 7 (16383 :: 16 word) AND 0x7F) :: 8 word) = 0x7F"
  by simp

text \<open>
  Claim C4, as amended. Every encoder is a silent no-op (the module state, and with it the
  transport log, is returned unchanged) when the channel is outside \<open>1..16\<close>; note on and
  note off also when the note or the velocity exceeds 127; control change when the
  controller or the value exceeds 127; program change when the program exceeds 127. Note on
  accepts velocity 0 and sends it. Pitch bend checks the channel only: a value in
  \<open>-8192..8191\<close> is sent as the 14-bit number \<open>value + 8192\<close>, low seven bits first, and
  a value above 8191 is sent as 16383.
\<close>

theorem C4_encoder_validation:
  "(channel < 1 \<or> channel > 16 \<or> note_number > 127 \<or> velocity > 127 \<longrightarrow>
      MIDI_send_note_on m channel note_number velocity = m \<and>
      MIDI_send_note_off m channel note_number velocity = m) \<and>
   (channel < 1 \<or> channel > 16 \<or> controller > 127 \<or> val > 127 \<longrightarrow>
      MIDI_send_control_change m channel controller val = m) \<and>
   (channel < 1 \<or> channel > 16 \<or> program > 127 \<longrightarrow>
      MIDI_send_program_change m channel program = m) \<and>
   (channel < 1 \<or> channel > 16 \<longrightarrow>
      MIDI_send_pitch_bend m channel bend = m \<and> MIDI_send_all_notes_off m channel = m) \<and>
   (midi_initialized m \<and> 1 \<le> channel \<and> channel \<le> 16 \<and> note_number \<le> 127 \<longrightarrow>
      uart_tx (MIDI_send_note_on m channel note_number 0) =
        uart_tx m @ [0x90 OR (channel - 1), note_number, 0]) \<and>
   (midi_initialized m \<and> 1 \<le> channel \<and> channel \<le> 16 \<and> - 8192 \<le> sint bend \<and> sint bend \<le> 8191 \<longrightarrow>
      uart_tx (MIDI_send_pitch_bend m channel bend) =
        uart_tx m @ [0xE0 OR (channel - 1), ucast ((bend + 8192) AND 0x7F),
                     ucast (drop_bit 7 (bend + 8192) AND 0x7F)]) \<and>
   (midi_initialized m \<and> 1 \<le> channel \<and> channel \<le> 16 \<and> 8191 < sint bend \<longrightarrow>
      uart_tx (MIDI_send_pitch_bend m channel bend) =
        uart_tx m @ [0xE0 OR (channel - 1), 0x7F, 0x7F])"
proof -
  have nt: "channel < 1 \<or> channel > 16 \<or> note_number > 127 \<or> velocity > 127 \<longrightarrow>
      MIDI_send_note_on m channel note_number velocity = m \<and>
      MIDI_send_note_off m channel note_number velocity = m"
    by (simp add: MIDI_send_note_on_def MIDI_send_note_off_def)
  have cc: "channel < 1 \<or> channel > 16 \<or> controller > 127 \<or> val > 127 \<longrightarrow>
      MIDI_send_control_change m channel controller val = m"
    by (simp add: MIDI_send_control_change_def)
  have pc: "channel < 1 \<or> channel > 16 \<or> program > 127 \<longrightarrow>
      MIDI_send_program_change m channel program = m"
    by (simp add: MIDI_send_program_change_def)
  have ch: "channel < 1 \<or> channel > 16 \<longrightarrow>
      MIDI_send_pitch_bend m channel bend = m \<and> MIDI_send_all_notes_off m channel = m"
    by (simp add: MIDI_send_pitch_bend_def MIDI_send_all_notes_off_def
        MIDI_send_control_change_def)
  have v0: "midi_initialized m \<and> 1 \<le> channel \<and> channel \<le> 16 \<and> note_number \<le> 127 \<longrightarrow>
      uart_tx (MIDI_send_note_on m channel note_number 0) =
        uart_tx m @ [0x90 OR (channel - 1), note_number, 0]"
    by (auto simp: MIDI_send_note_on_def MIDI_send_raw_3 MIDI_NOTE_ON_def)
  have pb1: "midi_initialized m \<and> 1 \<le> channel \<and> channel \<le> 16 \<and> - 8192 \<le> sint bend \<and> sint bend \<le> 8191 \<longrightarrow>
      uart_tx (MIDI_send_pitch_bend m channel bend) =
        uart_tx m @ [0xE0 OR (channel - 1), ucast ((bend + 8192) AND 0x7F),
                     ucast (drop_bit 7 (bend + 8192) AND 0x7F)]"
    using bend_in_range [of bend]
    by (auto simp: MIDI_send_pitch_bend_def Let_def MIDI_send_raw_3 MIDI_PITCH_BEND_def)
  have pb2: "midi_initialized m \<and> 1 \<le> channel \<and> channel \<le> 16 \<and> 8191 < sint bend \<longrightarrow>
      uart_tx (MIDI_send_pitch_bend m channel bend) =
        uart_tx m @ [0xE0 OR (channel - 1), 0x7F, 0x7F]"
    using bend_above [of bend] low7_16383 high7_16383
    by (auto simp: MIDI_send_pitch_bend_def Let_def MIDI_send_raw_3 MIDI_PITCH_BEND_def)
  show ?thesis
    using nt cc pc ch v0 pb1 pb2 by blast
qed

text \<open>
  Claim C4 as stated fails: note on with velocity 0 (outside \<open>1..127\<close>) and pitch bend
  with value 8192 (outside \<open>-8192..8191\<close>) both hand three bytes to the transport.
\<close>

theorem C4_counterexample:
  "uart_tx (MIDI_send_note_on \<lparr>midi_initialized = True, uart_tx = []\<rparr> 1 60 0) = [0x90, 60, 0] \<and>
   \<not> sint (8192 :: 16 word) \<le> 8191 \<and>
   uart_tx (MIDI_send_pitch_bend \<lparr>midi_initialized = True, uart_tx = []\<rparr> 1 8192)
     = [0xE0, 0x7F, 0x7F]"
  by (simp add: MIDI_send_note_on_def MIDI_send_pitch_bend_def MIDI_send_raw_3
      MIDI_NOTE_ON_def MIDI_PITCH_BEND_def)

lemma filter_first_key: "filter (\<lambda>i. bit (1 :: 32 word) i) [0..<64] = [0]"
  by (simp add: bit_1_iff upt_rec)

theorem C1_cycle_messages_witness:
  "uart_tx (midi (Keyboard_MIDI_Process 10 1
      \<lparr>keyboard_last_scan = 0,
       keyboard_state = keyboard_state_zero\<lparr>debounce_counter := (replicate 64 0)[0 := 2]\<rparr>,
       midi = MIDI_init \<lparr>midi_initialized = False, uart_tx = []\<rparr>\<rparr>))
     = [0xB0, 123, 0, 0x90, 48, 100]"
proof -
  let ?s = "keyboard_state_zero\<lparr>debounce_counter := (replicate 64 0)[0 := 2]\<rparr>"
  let ?a = "\<lparr>keyboard_last_scan = 0, keyboard_state = ?s,
            midi = MIDI_init \<lparr>midi_initialized = False, uart_tx = []\<rparr>\<rparr>"
  have wf: "kbd_wf ?s"
    by (simp add: kbd_wf_def keyboard_state_zero_def)
  have new: "stable_state (Update_Keyboard_State ?s 1) = 1"
  proof (rule bit_word_eqI)
    fix n assume "n < LENGTH(32)"
    then have n: "n < 64" by simp
    show "bit (stable_state (Update_Keyboard_State ?s 1)) n = bit (1 :: 32 word) n"
    proof (cases "n = 0")
      case True
      have k: "key_step (bit (1 :: 32 word) 0) (key_view ?s 0) = (True, 0)"
        using key_step_commit [of True False 2]
        by (simp add: key_view_def keyboard_state_zero_def)
      show ?thesis
        using Update_stable_bit(1) [OF wf _ k] True by simp
    next
      case False
      then have k: "key_step (bit (1 :: 32 word) n) (key_view ?s n) = (False, 0)"
        using n key_step_agree [of False False 0]
        by (simp add: key_view_def keyboard_state_zero_def bit_1_iff)
      show ?thesis
        using Update_stable_bit(1) [OF wf n k] False by (simp add: bit_1_iff)
    qed
  qed
  have old: "stable_state ?s = 0"
    by (simp add: keyboard_state_zero_def)
  have "midi_initialized (midi ?a)" and "KEYBOARD_SCAN_PERIOD_MS \<le> 10 - keyboard_last_scan ?a"
    by (simp_all add: KEYBOARD_SCAN_PERIOD_MS_def MIDI_init_result)
  from C1_cycle_messages [OF this refl refl refl, of 1]
  have "uart_tx (midi (Keyboard_MIDI_Process 10 1 ?a)) =
      [0xB0, 123, 0] @ concat (map (\<lambda>i. if bit (stable_state (keyboard_state (Keyboard_MIDI_Process 10 1 ?a))) i
                        then [0x90 OR (1 - 1), midi_notes ! i, 100]
                        else [0x80 OR (1 - 1), midi_notes ! i, 0])
                  (filter (\<lambda>i. bit (stable_state (keyboard_state (Keyboard_MIDI_Process 10 1 ?a))
                                       XOR stable_state ?s) i) [0..<64]))"
    by (simp add: MIDI_init_result)
  moreover have "keyboard_state (Keyboard_MIDI_Process 10 1 ?a) = Update_Keyboard_State ?s 1"
    by (simp add: Keyboard_MIDI_Process_def KEYBOARD_SCAN_PERIOD_MS_def Let_def)
  ultimately show ?thesis
    by (simp add: new old filter_first_key midi_notes_def)
qed

theorem C4_encoder_validation_witness:
  "MIDI_send_note_on \<lparr>midi_initialized = True, uart_tx = []\<rparr> 17 60 100
     = \<lparr>midi_initialized = True, uart_tx = []\<rparr> \<and>
   MIDI_send_note_on \<lparr>midi_initialized = True, uart_tx = []\<rparr> 1 128 100
     = \<lparr>midi_initialized = True, uart_tx = []\<rparr> \<and>
   MIDI_send_control_change \<lparr>midi_initialized = True, uart_tx = []\<rparr> 1 128 0
     = \<lparr>midi_initialized = True, uart_tx = []\<rparr> \<and>
   MIDI_send_program_change \<lparr>midi_initialized = True, uart_tx = []\<rparr> 1 128
     = \<lparr>midi_initialized = True, uart_tx = []\<rparr> \<and>
   MIDI_send_pitch_bend \<lparr>midi_initialized = True, uart_tx = []\<rparr> 0 0
     = \<lparr>midi_initialized = True, uart_tx = []\<rparr> \<and>
   uart_tx (MIDI_send_note_on \<lparr>midi_initialized = True, uart_tx = []\<rparr> 1 60 0) = [0x90, 60, 0] \<and>
   uart_tx (MIDI_send_pitch_bend \<lparr>midi_initialized = True, uart_tx = []\<rparr> 1 (- 8192)) = [0xE0, 0, 0] \<and>
   uart_tx (MIDI_send_pitch_bend \<lparr>midi_initialized = True, uart_tx = []\<rparr> 1 0) = [0xE0, 0, 0x40] \<and>
   uart_tx (MIDI_send_pitch_bend \<lparr>midi_initialized = True, uart_tx = []\<rparr> 1 9000) = [0xE0, 0x7F, 0x7F]"
  using
    C4_encoder_validation [where m = "\<lparr>midi_initialized = True, uart_tx = []\<rparr>" and channel = 17 and note_number = 60 and velocity = 100
      and controller = 0 and val = 0 and program = 0 and bend = 0]
    C4_encoder_validation [where m = "\<lparr>midi_initialized = True, uart_tx = []\<rparr>" and channel = 1 and note_number = 128 and velocity = 100
      and controller = 128 and val = 0 and program = 128 and bend = 0]
    C4_encoder_validation [where m = "\<lparr>midi_initialized = True, uart_tx = []\<rparr>" and channel = 0 and note_number = 60 and velocity = 100
      and controller = 0 and val = 0 and program = 0 and bend = 0]
    C4_encoder_validation [where m = "\<lparr>midi_initialized = True, uart_tx = []\<rparr>" and channel = 1 and note_number = 60 and velocity = 100
      and controller = 0 and val = 0 and program = 0 and bend = "- 8192"]
    C4_encoder_validation [where m = "\<lparr>midi_initialized = True, uart_tx = []\<rparr>" and channel = 1 and note_number = 60 and velocity = 100
      and controller = 0 and val = 0 and program = 0 and bend = 0]
    C4_encoder_validation [where m = "\<lparr>midi_initialized = True, uart_tx = []\<rparr>" and channel = 1 and note_number = 60 and velocity = 100
      and controller = 0 and val = 0 and program = 0 and bend = 9000]
  by simp

section \<open>Properties of the note-name parser\<close>

lemma upt_12: "[0..<12] = [0, 1, 2, 3, 4, 5, 6, 7, 8, 9, 10, 11]"
  by (simp add: upt_rec)

lemma find_semitone_sharp: "find_semitone l CHR ''#'' = sharp_semitone l"
  by (simp add: find_semitone_def notes_table_def upt_12 sharp_semitone_def)

lemma find_semitone_natural:
  "acc \<noteq> CHR ''#'' \<Longrightarrow> find_semitone l acc = natural_semitone l"
  by (simp add: find_semitone_def notes_table_def upt_12 natural_semitone_def)

lemma flat_semitone_eq:
  "flat_semitone l = (case flat_to_sharp l of None \<Rightarrow> None | Some l' \<Rightarrow> sharp_semitone l')"
  by (simp add: flat_semitone_def flat_to_sharp_def)

lemma octave_cases:
  "octave \<le> 9 \<Longrightarrow> octave \<in> {0, 1, 2, 3, 4, 5, 6, 7, 8, 9 :: nat}"
  by auto

lemma octave_char:
  "octave \<le> 9 \<Longrightarrow> int (of_char (''0123456789'' ! octave) :: nat) - 48 = int octave"
  using octave_cases [of octave] by auto

lemma number_in_range:
  "octave \<le> 9 \<Longrightarrow>
   (let midi_note = (int octave + 1) * 12 + int st
    in if 0 \<le> midi_note \<and> midi_note \<le> 127 then of_int midi_note else (255 :: 8 word)) =
   (if (octave + 1) * 12 + st \<le> 127 then of_nat ((octave + 1) * 12 + st) else 255)"
  by (simp add: Let_def) 

lemma octave_and_number_at:
  assumes "octave \<le> 9" "length s > pos" "s ! pos = ''0123456789'' ! octave"
    and "pos = (if accidental = CHR ''#'' \<or> accidental = CHR ''b'' then 2 else 1)"
  shows "octave_and_number s accidental st =
         (if (octave + 1) * 12 + st \<le> 127 then of_nat ((octave + 1) * 12 + st) else 255)"
proof -
  have "int (of_char (s ! pos) :: nat) - 48 = int octave"
    using assms(1,3) by (simp add: octave_char)
  moreover have "\<not> length s \<le> pos" using assms(2) by simp
  ultimately show ?thesis
    unfolding octave_and_number_def assms(4) [symmetric] Let_def
    using assms(1) number_in_range [OF assms(1), of st]
    by (simp add: Let_def)
qed

lemma name_natural:
  assumes "octave \<le> 9"
  shows "MIDI_note_name_to_number (Some (note_text l Natural octave)) = spec_note_number l Natural octave"
proof -
  let ?s = "[l, ''0123456789'' ! octave]"
  have num: "octave_and_number ?s (CHR 0x00) st =
      (if (octave + 1) * 12 + st \<le> 127 then of_nat ((octave + 1) * 12 + st) else 255)" for st
    by (rule octave_and_number_at [OF assms, where pos = 1]) simp_all
  show ?thesis
    by (simp add: MIDI_note_name_to_number_def note_text_def spec_note_number_def
        spec_semitone_def find_semitone_natural num split: option.split)
qed

lemma name_sharp:
  assumes "octave \<le> 9"
  shows "MIDI_note_name_to_number (Some (note_text l Sharp octave)) = spec_note_number l Sharp octave"
proof -
  let ?s = "[l, CHR ''#'', ''0123456789'' ! octave]"
  have num: "octave_and_number ?s (CHR ''#'') st =
      (if (octave + 1) * 12 + st \<le> 127 then of_nat ((octave + 1) * 12 + st) else 255)" for st
    by (rule octave_and_number_at [OF assms, where pos = 2]) simp_all
  show ?thesis
    by (simp add: MIDI_note_name_to_number_def note_text_def spec_note_number_def
        spec_semitone_def find_semitone_sharp num split: option.split)
qed

lemma name_flat:
  assumes "octave \<le> 9"
  shows "MIDI_note_name_to_number (Some (note_text l Flat octave)) = spec_note_number l Flat octave"
proof -
  let ?s = "[l, CHR ''b'', ''0123456789'' ! octave]"
  have num: "octave_and_number ?s (CHR ''#'') st =
      (if (octave + 1) * 12 + st \<le> 127 then of_nat ((octave + 1) * 12 + st) else 255)" for st
    by (rule octave_and_number_at [OF assms, where pos = 2]) simp_all
  show ?thesis
    by (simp add: MIDI_note_name_to_number_def note_text_def spec_note_number_def
        spec_semitone_def find_semitone_sharp flat_semitone_eq num split: option.split)
qed

lemma octave_and_number_range:
  "octave_and_number s accidental st \<le> 127 \<or> octave_and_number s accidental st = 255"
proof -
  have w: "(of_int n :: 8 word) \<le> 127" if "0 \<le> n" "n \<le> 127" for n :: int
  proof -
    have "uint (of_int n :: 8 word) = n"
      using that by (simp add: uint_word_of_int take_bit_eq_mod)
    then show ?thesis using that by (simp add: word_le_def)
  qed
  define pos :: nat where "pos = (if accidental = CHR ''#'' \<or> accidental = CHR ''b'' then 2 else 1)"
  define oct where "oct = int (of_char (s ! pos) :: nat) - 48"
  define n where "n = (oct + 1) * 12 + int st"
  have eq: "octave_and_number s accidental st =
      (if length s \<le> pos then 255
       else if oct < 0 \<or> oct > 9 then 255
       else if 0 \<le> n \<and> n \<le> 127 then of_int n else 255)"
    by (simp only: octave_and_number_def Let_def pos_def oct_def n_def)
  show ?thesis
    unfolding eq using w [of n] by presburger
qed

lemma name_range:
  "MIDI_note_name_to_number name \<le> 127 \<or> MIDI_note_name_to_number name = 255"
  using octave_and_number_range
  by (auto simp: MIDI_note_name_to_number_def Let_def split: option.split)

lemma name_short: "length s < 2 \<Longrightarrow> MIDI_note_name_to_number (Some s) = 255"
  by (simp add: MIDI_note_name_to_number_def)

text \<open>
  Claim C6. \<^verbatim>\<open>MIDI_note_name_to_number\<close> on a note letter, an optional \<open>#\<close> or \<open>b\<close> and an
  octave digit \<open>0..9\<close> returns what the convention of the specification gives: flats are the
  sharp of the letter below (none on C or F), the number is \<open>(octave + 1) * 12 + semitone\<close>
  when that is at most 127 and 255 otherwise, and 255 for a letter or accidental outside the
  convention. C4 is 60, A4 is 69, Db5 equals C#5, and H4, C and the empty string give 255,
  as does every string shorter than two characters. The result is always in \<open>0..127\<close> or 255.
\<close>

theorem C6_note_name_to_number:
  "MIDI_note_name_to_number (Some ''C4'') = 60 \<and>
   MIDI_note_name_to_number (Some ''A4'') = 69 \<and>
   MIDI_note_name_to_number (Some ''Db5'') = MIDI_note_name_to_number (Some ''C#5'') \<and>
   MIDI_note_name_to_number (Some ''H4'') = 255 \<and>
   MIDI_note_name_to_number (Some ''C'') = 255 \<and>
   MIDI_note_name_to_number (Some []) = 255 \<and>
   (octave \<le> 9 \<longrightarrow>
      MIDI_note_name_to_number (Some (note_text l a octave)) = spec_note_number l a octave) \<and>
   (length s < 2 \<longrightarrow> MIDI_note_name_to_number (Some s) = 255) \<and>
   (MIDI_note_name_to_number name \<le> 127 \<or> MIDI_note_name_to_number name = 255)"
proof -
  have c4: "MIDI_note_name_to_number (Some ''C4'') = 60"
    using name_natural [of 4 "CHR ''C''"]
    by (simp add: note_text_def spec_note_number_def spec_semitone_def natural_semitone_def)
  have a4: "MIDI_note_name_to_number (Some ''A4'') = 69"
    using name_natural [of 4 "CHR ''A''"]
    by (simp add: note_text_def spec_note_number_def spec_semitone_def natural_semitone_def)
  have db5: "MIDI_note_name_to_number (Some ''Db5'') = 73"
    using name_flat [of 5 "CHR ''D''"]
    by (simp add: note_text_def spec_note_number_def spec_semitone_def flat_semitone_def
        sharp_semitone_def)
  have cs5: "MIDI_note_name_to_number (Some ''C#5'') = 73"
    using name_sharp [of 5 "CHR ''C''"]
    by (simp add: note_text_def spec_note_number_def spec_semitone_def sharp_semitone_def)
  have h4: "MIDI_note_name_to_number (Some ''H4'') = 255"
    using name_natural [of 4 "CHR ''H''"]
    by (simp add: note_text_def spec_note_number_def spec_semitone_def natural_semitone_def)
  have gen: "octave \<le> 9 \<longrightarrow>
      MIDI_note_name_to_number (Some (note_text l a octave)) = spec_note_number l a octave"
    by (cases a) (simp_all add: name_natural name_sharp name_flat)
  show ?thesis
    using c4 a4 db5 cs5 h4 gen name_short [of "''C''"] name_short [of "[]"] name_short [of s]
      name_range [of name]
    by simp
qed

theorem C6_note_name_to_number_witness:
  "MIDI_note_name_to_number (Some ''F#3'') = 54 \<and>
   MIDI_note_name_to_number (Some ''Bb5'') = 82 \<and>
   MIDI_note_name_to_number (Some ''G#9'') = 255 \<and>
   MIDI_note_name_to_number (Some ''Cb4'') = 255 \<and>
   MIDI_note_name_to_number (Some ''x'') = 255"
  using C6_note_name_to_number [of 3 "CHR ''F''" Sharp "''x''" None]
    C6_note_name_to_number [of 5 "CHR ''B''" Flat "''x''" None]
    C6_note_name_to_number [of 9 "CHR ''G''" Sharp "''x''" None]
    C6_note_name_to_number [of 4 "CHR ''C''" Flat "''x''" None]
  by (simp add: note_text_def spec_note_number_def spec_semitone_def sharp_semitone_def
      flat_semitone_def)

section \<open>Properties of the GPIO expander driver\<close>

lemma BSP_I2C_Init_eq:
  "BSP_I2C_Init d h =
     (if i2c_reply d (i2c_trace d @ [I2C_Init h]) = None then HAL_ERROR else HAL_OK,
      d\<lparr>i2c_trace := i2c_trace d @ [I2C_Init h]\<rparr>)"
  by (simp add: BSP_I2C_Init_def Let_def)

lemma BSP_I2C_Read_eq:
  "BSP_I2C_Read d h a r =
     (i2c_reply d (i2c_trace d @ [I2C_Read h a r]), d\<lparr>i2c_trace := i2c_trace d @ [I2C_Read h a r]\<rparr>)"
  by (simp add: BSP_I2C_Read_def Let_def)

lemma BSP_I2C_Write_eq:
  "BSP_I2C_Write d h a r v =
     (if i2c_reply d (i2c_trace d @ [I2C_Write h a r v]) = None then HAL_ERROR else HAL_OK,
      d\<lparr>i2c_trace := i2c_trace d @ [I2C_Write h a r v]\<rparr>)"
  by (simp add: BSP_I2C_Write_def Let_def)

lemma status_if: "((if c then HAL_ERROR else HAL_OK) \<noteq> HAL_OK) = c"
  by simp

lemma initIc_outcome:
  assumes "chip_id < length (MCP23017_ic d)"
  shows "MCP23017_initIc d chip_id bus addr =
         init_outcome d chip_id bus (bus_address (addr AND 0x07))"
  using assms
  by (auto simp add: MCP23017_initIc_def init_outcome_def BSP_I2C_Init_eq BSP_I2C_Read_eq
      BSP_I2C_Write_eq Let_def init_sequence_def readback_ok_def slot_release_def
      bus_address_def status_if simp del: not_None_eq)

lemma and_7_id:
  assumes "addr \<le> 7"
  shows "addr AND 0x07 = (addr :: 8 word)"
proof -
  have "uint addr < 2 ^ 3"
    using assms by (simp add: word_le_def)
  then have "addr AND mask 3 = addr"
    by (simp add: mask_eq_iff)
  then show ?thesis
    by (simp add: mask_eq_exp_minus_1)
qed

lemma run_sequence_ok:
  "fst (run_sequence rp t ops) \<Longrightarrow> snd (run_sequence rp t ops) = t @ ops"
proof (induction ops arbitrary: t)
  case Nil
  then show ?case by simp
next
  case (Cons x xs)
  show ?case
  proof (cases "rp (t @ [x]) = None")
    case True
    then show ?thesis using Cons.prems by simp
  next
    case False
    then have "fst (run_sequence rp (t @ [x]) xs)"
      using Cons.prems by auto
    then have "snd (run_sequence rp (t @ [x]) xs) = (t @ [x]) @ xs"
      by (rule Cons.IH)
    then show ?thesis using False by auto
  qed
qed

lemma run_sequence_prefix:
  "\<exists>k\<le>length ops. snd (run_sequence rp t ops) = t @ take k ops"
proof (induction ops arbitrary: t)
  case Nil
  then show ?case by simp
next
  case (Cons x xs)
  show ?case
  proof (cases "rp (t @ [x]) = None")
    case True
    then have "snd (run_sequence rp t (x # xs)) = t @ take 1 (x # xs)" by simp
    then show ?thesis by (metis One_nat_def Suc_leI length_Cons zero_less_Suc)
  next
    case False
    obtain k where "k \<le> length xs" "snd (run_sequence rp (t @ [x]) xs) = (t @ [x]) @ take k xs"
      using Cons.IH [of "t @ [x]"] by blast
    then have "Suc k \<le> length (x # xs)"
      and "snd (run_sequence rp t (x # xs)) = t @ take (Suc k) (x # xs)"
      using False by auto
    then show ?thesis by blast
  qed
qed

lemma run_sequence_abort:
  "k < length ops \<Longrightarrow> rp (t @ take (Suc k) ops) = None \<Longrightarrow> \<not> fst (run_sequence rp t ops)"
proof (induction ops arbitrary: t k)
  case Nil
  then show ?case by simp
next
  case (Cons x xs)
  show ?case
  proof (cases k)
    case 0
    then show ?thesis using Cons.prems by simp
  next
    case (Suc k')
    then have "k' < length xs" "rp ((t @ [x]) @ take (Suc k') xs) = None"
      using Cons.prems by simp_all
    then have "\<not> fst (run_sequence rp (t @ [x]) xs)"
      by (rule Cons.IH)
    then show ?thesis by auto
  qed
qed

lemma init_sequence_length: "length (init_sequence bus a) = 14"
  by (simp add: init_sequence_def)

text \<open>
  Claim C8, as amended. For a hardware address of \<open>0..7\<close> the sequence run by \<^verbatim>\<open>MCP23017_initIc\<close>
  computes the bus address \<open>(0x20 << 1) | (hardware_address << 1)\<close> and then issues, in this
  order and stopping at the first transaction that fails: the bus configuration, a
  communication-test read, port A direction all outputs, port B direction all inputs,
  port B pull-ups on, port A pull-ups off, port A output latch all high, the configuration
  byte 0x00 to both configuration registers, interrupts off on both ports, and read-backs
  of the port A direction, the port B direction and the port B pull-up register. It
  returns \<^verbatim>\<open>HAL_OK\<close>, with the slot in use, exactly when every transaction succeeded and the
  three read-backs are 0x00, 0xFF and 0xFF; otherwise it returns \<^verbatim>\<open>HAL_ERROR\<close> with the slot
  free. The port A pull-up register is not read back.
\<close>

theorem C8_init_sequence:
  assumes "chip_id < length (MCP23017_ic d)" and "addr \<le> 7"
    and "a = bus_address addr"
    and "result = MCP23017_initIc d chip_id bus addr"
    and "run = run_sequence (i2c_reply d) (i2c_trace d) (init_sequence bus a)"
  shows "i2c_trace (snd result) = snd run \<and>
         (\<exists>k\<le>14. i2c_trace (snd result) = i2c_trace d @ take k (init_sequence bus a)) \<and>
         (fst result = HAL_OK \<longleftrightarrow> fst run \<and> readback_ok (i2c_reply d) (i2c_trace d) bus a) \<and>
         (fst result = HAL_OK \<longrightarrow> i2c_trace (snd result) = i2c_trace d @ init_sequence bus a) \<and>
         (\<forall>k<14. i2c_reply d (i2c_trace d @ take (Suc k) (init_sequence bus a)) = None
            \<longrightarrow> fst result = HAL_ERROR) \<and>
         address (MCP23017_ic (snd result) ! chip_id) = a \<and>
         used (MCP23017_ic (snd result) ! chip_id) = (fst result = HAL_OK) \<and>
         length (MCP23017_ic (snd result)) = length (MCP23017_ic d) \<and>
         (\<forall>j. j \<noteq> chip_id \<longrightarrow> MCP23017_ic (snd result) ! j = MCP23017_ic d ! j)"
proof -
  have r: "result = init_outcome d chip_id bus a"
    using assms(1-4) by (simp add: initIc_outcome and_7_id)
  obtain ok t' where run: "run = (ok, t')" by (cases run)
  have st: "fst result = HAL_OK \<longleftrightarrow> ok \<and> readback_ok (i2c_reply d) (i2c_trace d) bus a"
    and tr: "i2c_trace (snd result) = t'"
    and ic: "MCP23017_ic (snd result) = (MCP23017_ic d)[chip_id :=
        \<lparr>used = (ok \<and> readback_ok (i2c_reply d) (i2c_trace d) bus a), address = a, I2Cx = bus,
         error_count = 0\<rparr>]"
    using run assms(5) by (simp_all add: r init_outcome_def Let_def)
  have p1: "i2c_trace (snd result) = snd run"
    by (simp add: tr run)
  have p2: "\<exists>k\<le>14. i2c_trace (snd result) = i2c_trace d @ take k (init_sequence bus a)"
    using run_sequence_prefix [of "init_sequence bus a" "i2c_reply d" "i2c_trace d"]
    by (simp add: p1 assms(5) init_sequence_length)
  have p3: "fst result = HAL_OK \<longleftrightarrow> fst run \<and> readback_ok (i2c_reply d) (i2c_trace d) bus a"
    by (simp add: st run)
  have p4: "fst result = HAL_OK \<longrightarrow> i2c_trace (snd result) = i2c_trace d @ init_sequence bus a"
    using run_sequence_ok [of "i2c_reply d" "i2c_trace d" "init_sequence bus a"]
    by (simp add: p3 p1 assms(5))
  have p5: "\<forall>k<14. i2c_reply d (i2c_trace d @ take (Suc k) (init_sequence bus a)) = None
      \<longrightarrow> fst result = HAL_ERROR"
  proof (intro allI impI)
    fix k assume "k < 14"
      and "i2c_reply d (i2c_trace d @ take (Suc k) (init_sequence bus a)) = None"
    then have "\<not> fst run"
      unfolding assms(5) by (intro run_sequence_abort) (simp_all add: init_sequence_length)
    then have "fst result \<noteq> HAL_OK" by (simp add: p3)
    then show "fst result = HAL_ERROR" by (cases "fst result") simp_all
  qed
  have p6: "address (MCP23017_ic (snd result) ! chip_id) = a"
    and p7: "used (MCP23017_ic (snd result) ! chip_id) = (fst result = HAL_OK)"
    and p8: "length (MCP23017_ic (snd result)) = length (MCP23017_ic d)"
    and p9: "\<forall>j. j \<noteq> chip_id \<longrightarrow> MCP23017_ic (snd result) ! j = MCP23017_ic d ! j"
    using assms(1) by (simp_all add: ic st)
  show ?thesis
    using p1 p2 p3 p4 p5 p6 p7 p8 p9 by blast
qed

lemma driver_reset_simps:
  "MCP23017_ic (driver_reset rp n) = replicate n \<lparr>used = False, address = 0, I2Cx = 0, error_count = 0\<rparr>"
  "i2c_reply (driver_reset rp n) = rp"
  "i2c_trace (driver_reset rp n) = []"
  by (simp_all add: driver_reset_def MCP23017_init_def)

lemma bus_address_0: "bus_address 0 = 0x40"
  by (simp add: bus_address_def)

lemma stuck_run:
  "run_sequence pullup_a_stuck [] (init_sequence 0 0x40) = (True, init_sequence 0 0x40)"
  by (simp add: init_sequence_def pullup_a_stuck_def MPC23017_REGISTER_IODIR_A_def
      MPC23017_REGISTER_IODIR_B_def MPC23017_REGISTER_GPPU_B_def MPC23017_REGISTER_GPPU_A_def
      MPC23017_REGISTER_OLAT_A_def MPC23017_REGISTER_IOCON_A_def MPC23017_REGISTER_IOCON_B_def
      MPC23017_REGISTER_GPINTEN_A_def MPC23017_REGISTER_GPINTEN_B_def)

lemma stuck_readback: "readback_ok pullup_a_stuck [] 0 0x40"
  by (simp add: readback_ok_def init_sequence_def pullup_a_stuck_def MPC23017_REGISTER_IODIR_A_def
      MPC23017_REGISTER_IODIR_B_def MPC23017_REGISTER_GPPU_B_def MPC23017_REGISTER_GPPU_A_def
      MPC23017_REGISTER_OLAT_A_def MPC23017_REGISTER_IOCON_A_def MPC23017_REGISTER_IOCON_B_def
      MPC23017_REGISTER_GPINTEN_A_def MPC23017_REGISTER_GPINTEN_B_def)

lemma stuck_init:
  "MCP23017_initIc (driver_reset pullup_a_stuck 1) 0 0 0 =
     (HAL_OK, \<lparr>MCP23017_ic = [\<lparr>used = True, address = 0x40, I2Cx = 0, error_count = 0\<rparr>],
               i2c_reply = pullup_a_stuck, i2c_trace = init_sequence 0 0x40\<rparr>)"
  by (simp add: initIc_outcome driver_reset_simps init_outcome_def bus_address_0 stuck_run
      stuck_readback driver_reset_def MCP23017_init_def)

text \<open>
  Claim C8 as stated fails for the pull-up registers: on a device whose port A pull-up
  register reads 0xFF, the sequence writes 0x00 to that register, never reads it back, and
  succeeds.
\<close>

theorem C8_counterexample:
  "fst (MCP23017_initIc (driver_reset pullup_a_stuck 1) 0 0 0) = HAL_OK \<and>
   I2C_Write 0 0x40 MPC23017_REGISTER_GPPU_A 0x00
     \<in> set (i2c_trace (snd (MCP23017_initIc (driver_reset pullup_a_stuck 1) 0 0 0))) \<and>
   I2C_Read 0 0x40 MPC23017_REGISTER_GPPU_A
     \<notin> set (i2c_trace (snd (MCP23017_initIc (driver_reset pullup_a_stuck 1) 0 0 0))) \<and>
   pullup_a_stuck (i2c_trace (snd (MCP23017_initIc (driver_reset pullup_a_stuck 1) 0 0 0))
                     @ [I2C_Read 0 0x40 MPC23017_REGISTER_GPPU_A]) = Some 0xFF"
  unfolding stuck_init
  by (simp add: init_sequence_def pullup_a_stuck_def MPC23017_REGISTER_IODIR_A_def
      MPC23017_REGISTER_IODIR_B_def MPC23017_REGISTER_GPPU_B_def MPC23017_REGISTER_GPPU_A_def)

theorem C8_init_sequence_witness:
  "fst (MCP23017_initIc (driver_reset pullup_a_stuck 1) 0 0 0) = HAL_OK \<and>
   i2c_trace (snd (MCP23017_initIc (driver_reset pullup_a_stuck 1) 0 0 0)) = init_sequence 0 0x40 \<and>
   address (MCP23017_ic (snd (MCP23017_initIc (driver_reset pullup_a_stuck 1) 0 0 0)) ! 0) = 0x40 \<and>
   used (MCP23017_ic (snd (MCP23017_initIc (driver_reset pullup_a_stuck 1) 0 0 0)) ! 0)"
proof -
  have l: "0 < length (MCP23017_ic (driver_reset pullup_a_stuck 1))"
    by (simp add: driver_reset_simps)
  have a: "(0 :: 8 word) \<le> 7" by simp
  show ?thesis
    using C8_init_sequence [OF l a refl refl refl, of 0]
    by (simp add: driver_reset_simps bus_address_0 stuck_run stuck_readback)
qed

lemma find_first_free:
  assumes "i < n" "P i" "\<forall>j<i. \<not> P j"
  shows "find P [0..<n] = Some i"
proof -
  have "\<exists>k<length [0..<n]. P ([0..<n] ! k) \<and> i = [0..<n] ! k \<and> (\<forall>j<k. \<not> P ([0..<n] ! j))"
    using assms by (intro exI [of _ i]) simp
  then show ?thesis by (simp only: find_Some_iff)
qed

lemma find_none_free: "\<forall>j<n. \<not> P j \<Longrightarrow> find P [0..<n] = None"
  by (simp add: find_None_iff)

text \<open>
  Claim C7. \<^verbatim>\<open>MCP23017_add\<close> returns the error handle, with the state untouched, when the
  hardware address exceeds 7 and when every slot is in use. Otherwise it runs the
  initialization sequence on the first free slot \<open>i\<close>: if a step fails or the read-back
  does not match, it returns the error handle and slot \<open>i\<close> is free again; on success it
  returns \<open>i\<close> and slot \<open>i\<close> is in use. The other slots are as they were.
\<close>

theorem C7_add:
  "(addr > 7 \<longrightarrow> MCP23017_add d bus addr = (None, d)) \<and>
   ((\<forall>j<length (MCP23017_ic d). used (MCP23017_ic d ! j)) \<longrightarrow>
      MCP23017_add d bus addr = (None, d)) \<and>
   (addr \<le> 7 \<and> i < length (MCP23017_ic d) \<and> \<not> used (MCP23017_ic d ! i) \<and>
    (\<forall>j<i. used (MCP23017_ic d ! j)) \<longrightarrow>
      (let run = run_sequence (i2c_reply d) (i2c_trace d) (init_sequence bus (bus_address addr));
           good = (fst run \<and> readback_ok (i2c_reply d) (i2c_trace d) bus (bus_address addr));
           result = MCP23017_add d bus addr
       in fst result = (if good then Some i else None) \<and>
          used (MCP23017_ic (snd result) ! i) = good \<and>
          length (MCP23017_ic (snd result)) = length (MCP23017_ic d) \<and>
          (\<forall>j. j \<noteq> i \<longrightarrow> MCP23017_ic (snd result) ! j = MCP23017_ic d ! j)))"
proof -
  have p1: "addr > 7 \<longrightarrow> MCP23017_add d bus addr = (None, d)"
    by (simp add: MCP23017_add_def)
  have p2: "(\<forall>j<length (MCP23017_ic d). used (MCP23017_ic d ! j)) \<longrightarrow>
      MCP23017_add d bus addr = (None, d)"
    by (simp add: MCP23017_add_def find_none_free)
  have p3: "let run = run_sequence (i2c_reply d) (i2c_trace d) (init_sequence bus (bus_address addr));
           good = (fst run \<and> readback_ok (i2c_reply d) (i2c_trace d) bus (bus_address addr));
           result = MCP23017_add d bus addr
       in fst result = (if good then Some i else None) \<and>
          used (MCP23017_ic (snd result) ! i) = good \<and>
          length (MCP23017_ic (snd result)) = length (MCP23017_ic d) \<and>
          (\<forall>j. j \<noteq> i \<longrightarrow> MCP23017_ic (snd result) ! j = MCP23017_ic d ! j)"
    if a: "addr \<le> 7" and i: "i < length (MCP23017_ic d)" and f: "\<not> used (MCP23017_ic d ! i)"
      and u: "\<forall>j<i. used (MCP23017_ic d ! j)"
  proof -
    have "find (\<lambda>k. used (MCP23017_ic d ! k) = False) [0..<length (MCP23017_ic d)] = Some i"
      using i f u by (intro find_first_free) simp_all
    moreover have "\<not> addr > 7" using a by (simp add: not_less)
    ultimately have add: "MCP23017_add d bus addr =
        (case init_outcome d i bus (bus_address addr) of
           (HAL_OK, d') \<Rightarrow> (Some i, d') | (HAL_ERROR, d') \<Rightarrow> (None, d'))"
      using i a by (simp add: MCP23017_add_def initIc_outcome and_7_id)
    show ?thesis
      unfolding add using i
      by (simp add: init_outcome_def Let_def split_def)
  qed
  show ?thesis
    using p1 p2 p3 by blast
qed

theorem C7_add_witness:
  "MCP23017_add (driver_reset pullup_a_stuck 1) 0 8 = (None, driver_reset pullup_a_stuck 1) \<and>
   fst (MCP23017_add (driver_reset pullup_a_stuck 1) 0 0) = Some 0 \<and>
   used (MCP23017_ic (snd (MCP23017_add (driver_reset pullup_a_stuck 1) 0 0)) ! 0) \<and>
   fst (MCP23017_add (driver_reset (\<lambda>t. None) 1) 0 0) = None \<and>
   \<not> used (MCP23017_ic (snd (MCP23017_add (driver_reset (\<lambda>t. None) 1) 0 0)) ! 0) \<and>
   MCP23017_add (snd (MCP23017_add (driver_reset pullup_a_stuck 1) 0 0)) 0 1
     = (None, snd (MCP23017_add (driver_reset pullup_a_stuck 1) 0 0))"
proof -
  let ?d = "driver_reset pullup_a_stuck 1"
  let ?n = "driver_reset (\<lambda>t. None) 1"
  have w1: "MCP23017_add ?d 0 8 = (None, ?d)"
    using C7_add [of 8 ?d 0 0] by simp
  have w2: "fst (MCP23017_add ?d 0 0) = Some 0 \<and> used (MCP23017_ic (snd (MCP23017_add ?d 0 0)) ! 0)"
    using C7_add [of 0 ?d 0 0]
    by (simp add: driver_reset_simps bus_address_0 stuck_run stuck_readback Let_def)
  have w3: "fst (MCP23017_add ?n 0 0) = None \<and> \<not> used (MCP23017_ic (snd (MCP23017_add ?n 0 0)) ! 0)"
    using C7_add [of 0 ?n 0 0]
    by (simp add: driver_reset_simps bus_address_0 init_sequence_def Let_def)
  have full: "\<forall>j<length (MCP23017_ic (snd (MCP23017_add ?d 0 0))).
      used (MCP23017_ic (snd (MCP23017_add ?d 0 0)) ! j)"
    using w2 C7_add [of 0 ?d 0 0]
    by (simp add: driver_reset_simps bus_address_0 stuck_run stuck_readback Let_def)
  have w4: "MCP23017_add (snd (MCP23017_add ?d 0 0)) 0 1 = (None, snd (MCP23017_add ?d 0 0))"
    using C7_add [of 1 "snd (MCP23017_add ?d 0 0)" 0 0] full by blast
  show ?thesis using w1 w2 w3 w4 by blast
qed

lemma checkId_iff:
  "MCP23017_checkId d chip_id \<longleftrightarrow>
     chip_id < length (MCP23017_ic d) \<and> used (MCP23017_ic d ! chip_id)"
  by (simp add: MCP23017_checkId_def not_le)

lemma io_failed_eq:
  "error_count_incr (d\<lparr>i2c_trace := i2c_trace d @ ops\<rparr>) chip_id = io_failed d chip_id ops"
  by (simp add: error_count_incr_def io_failed_def)

lemma setIO_cases:
  assumes "MCP23017_checkId d chip_id"
    and "h = I2Cx (MCP23017_ic d ! chip_id)" and "a = address (MCP23017_ic d ! chip_id)"
    and "r = I2C_Read h a (IODIR_of port)"
  shows "i2c_reply d (i2c_trace d @ [r]) = None \<Longrightarrow>
           MCP23017_setIO d chip_id port pin direction = (False, io_failed d chip_id [r])"
    and "i2c_reply d (i2c_trace d @ [r]) = Some v \<Longrightarrow>
         w = I2C_Write h a (IODIR_of port) (masked (direction = MCP23017_DIRECTION_OUTPUT) v pin) \<Longrightarrow>
         i2c_reply d (i2c_trace d @ [r, w]) = None \<Longrightarrow>
           MCP23017_setIO d chip_id port pin direction = (False, io_failed d chip_id [r, w])"
  using assms
  by (simp_all add: MCP23017_setIO_def BSP_I2C_Read_eq BSP_I2C_Write_eq Let_def IODIR_of_def
      masked_def io_failed_eq [symmetric])

lemma setGPIO_cases:
  assumes "MCP23017_checkId d chip_id"
    and "h = I2Cx (MCP23017_ic d ! chip_id)" and "a = address (MCP23017_ic d ! chip_id)"
    and "r = I2C_Read h a (OLAT_of port)"
  shows "i2c_reply d (i2c_trace d @ [r]) = None \<Longrightarrow>
           MCP23017_setGPIO d chip_id port pin state = (False, io_failed d chip_id [r])"
    and "i2c_reply d (i2c_trace d @ [r]) = Some v \<Longrightarrow>
         w = I2C_Write h a (OLAT_of port) (masked (state = MCP23017_PIN_STATE_LOW) v pin) \<Longrightarrow>
         i2c_reply d (i2c_trace d @ [r, w]) = None \<Longrightarrow>
           MCP23017_setGPIO d chip_id port pin state = (False, io_failed d chip_id [r, w])"
  using assms
  by (simp_all add: MCP23017_setGPIO_def BSP_I2C_Read_eq BSP_I2C_Write_eq Let_def OLAT_of_def
      masked_def io_failed_eq [symmetric])

lemma setPullUp_cases:
  assumes "MCP23017_checkId d chip_id"
    and "h = I2Cx (MCP23017_ic d ! chip_id)" and "a = address (MCP23017_ic d ! chip_id)"
    and "r = I2C_Read h a (GPPU_of port)"
  shows "i2c_reply d (i2c_trace d @ [r]) = None \<Longrightarrow>
           MCP23017_setPullUp d chip_id port pin pull = (False, io_failed d chip_id [r])"
    and "i2c_reply d (i2c_trace d @ [r]) = Some v \<Longrightarrow>
         w = I2C_Write h a (GPPU_of port) (masked (pull = MCP23017_PULL_UP_STATE_LOW) v pin) \<Longrightarrow>
         i2c_reply d (i2c_trace d @ [r, w]) = None \<Longrightarrow>
           MCP23017_setPullUp d chip_id port pin pull = (False, io_failed d chip_id [r, w])"
  using assms
  by (simp_all add: MCP23017_setPullUp_def BSP_I2C_Read_eq BSP_I2C_Write_eq Let_def GPPU_of_def
      masked_def io_failed_eq [symmetric])

lemma getter_read_fail:
  assumes "MCP23017_checkId d chip_id"
    and "h = I2Cx (MCP23017_ic d ! chip_id)" and "a = address (MCP23017_ic d ! chip_id)"
  shows "i2c_reply d (i2c_trace d @ [I2C_Read h a (IODIR_of port)]) = None \<Longrightarrow>
           MCP23017_getIO d chip_id port pin True
             = (None, io_failed d chip_id [I2C_Read h a (IODIR_of port)])"
    and "i2c_reply d (i2c_trace d @ [I2C_Read h a (GPIO_of port)]) = None \<Longrightarrow>
           MCP23017_getGPIO d chip_id port pin True
             = (None, io_failed d chip_id [I2C_Read h a (GPIO_of port)])"
    and "i2c_reply d (i2c_trace d @ [I2C_Read h a (GPIO_of port)]) = None \<Longrightarrow>
           MCP23017_getGPIO_all_pins d chip_id port True
             = (None, io_failed d chip_id [I2C_Read h a (GPIO_of port)])"
    and "i2c_reply d (i2c_trace d @ [I2C_Read h a (GPPU_of port)]) = None \<Longrightarrow>
           MCP23017_getPullUp d chip_id port pin True
             = (None, io_failed d chip_id [I2C_Read h a (GPPU_of port)])"
  using assms
  by (simp_all add: MCP23017_getIO_def MCP23017_getGPIO_def MCP23017_getGPIO_all_pins_def
      MCP23017_getPullUp_def BSP_I2C_Read_eq Let_def IODIR_of_def GPIO_of_def GPPU_of_def
      io_failed_eq [symmetric])

lemma invalid_id:
  assumes "\<not> MCP23017_checkId d chip_id"
  shows "MCP23017_setIO d chip_id port pin direction = (False, d)"
    and "MCP23017_getIO d chip_id port pin ptr = (None, d)"
    and "MCP23017_setGPIO d chip_id port pin state = (False, d)"
    and "MCP23017_getGPIO d chip_id port pin ptr = (None, d)"
    and "MCP23017_getGPIO_all_pins d chip_id port ptr = (None, d)"
    and "MCP23017_setPullUp d chip_id port pin pull = (False, d)"
    and "MCP23017_getPullUp d chip_id port pin ptr = (None, d)"
  using assms
  by (simp_all add: MCP23017_setIO_def MCP23017_getIO_def MCP23017_setGPIO_def
      MCP23017_getGPIO_def MCP23017_getGPIO_all_pins_def MCP23017_setPullUp_def
      MCP23017_getPullUp_def)

lemma io_failed_fields:
  assumes "chip_id < length (MCP23017_ic d)"
  shows "error_count (MCP23017_ic (io_failed d chip_id ops) ! chip_id)
           = error_count (MCP23017_ic d ! chip_id) + 1"
    and "used (MCP23017_ic (io_failed d chip_id ops) ! chip_id) = used (MCP23017_ic d ! chip_id)"
    and "address (MCP23017_ic (io_failed d chip_id ops) ! chip_id)
           = address (MCP23017_ic d ! chip_id)"
    and "I2Cx (MCP23017_ic (io_failed d chip_id ops) ! chip_id) = I2Cx (MCP23017_ic d ! chip_id)"
    and "\<forall>j. j \<noteq> chip_id \<longrightarrow> MCP23017_ic (io_failed d chip_id ops) ! j = MCP23017_ic d ! j"
    and "length (MCP23017_ic (io_failed d chip_id ops)) = length (MCP23017_ic d)"
    and "i2c_trace (io_failed d chip_id ops) = i2c_trace d @ ops"
    and "i2c_reply (io_failed d chip_id ops) = i2c_reply d"
  using assms by (simp_all add: io_failed_def)

text \<open>
  Claim C9. Each of the seven register operations first checks that the chip id names a
  slot in use and returns failure, with the state untouched and nothing on the bus, when
  it does not. When its register read fails it returns failure in the state \<open>io_failed\<close>
  with the read as the only transaction: the error counter of the chip is one higher
  (modulo 256, the counter being a byte) and neither another field of the slot nor another
  slot has changed; no write follows the failed read. When the write of a setter fails
  after its read succeeded, it returns failure in the state \<open>io_failed\<close> with the read and
  the write.
\<close>

theorem C9_register_operations:
  assumes "h = I2Cx (MCP23017_ic d ! chip_id)" and "a = address (MCP23017_ic d ! chip_id)"
    and "rp = i2c_reply d" and "t = i2c_trace d"
  shows
   "(MCP23017_checkId d chip_id \<longleftrightarrow>
       chip_id < length (MCP23017_ic d) \<and> used (MCP23017_ic d ! chip_id)) \<and>
    (\<not> MCP23017_checkId d chip_id \<longrightarrow>
       MCP23017_setIO d chip_id port pin direction = (False, d) \<and>
       MCP23017_getIO d chip_id port pin ptr = (None, d) \<and>
       MCP23017_setGPIO d chip_id port pin state = (False, d) \<and>
       MCP23017_getGPIO d chip_id port pin ptr = (None, d) \<and>
       MCP23017_getGPIO_all_pins d chip_id port ptr = (None, d) \<and>
       MCP23017_setPullUp d chip_id port pin pull = (False, d) \<and>
       MCP23017_getPullUp d chip_id port pin ptr = (None, d)) \<and>
    (MCP23017_checkId d chip_id \<and> rp (t @ [I2C_Read h a (IODIR_of port)]) = None \<longrightarrow>
       MCP23017_setIO d chip_id port pin direction
         = (False, io_failed d chip_id [I2C_Read h a (IODIR_of port)]) \<and>
       MCP23017_getIO d chip_id port pin True
         = (None, io_failed d chip_id [I2C_Read h a (IODIR_of port)])) \<and>
    (MCP23017_checkId d chip_id \<and> rp (t @ [I2C_Read h a (OLAT_of port)]) = None \<longrightarrow>
       MCP23017_setGPIO d chip_id port pin state
         = (False, io_failed d chip_id [I2C_Read h a (OLAT_of port)])) \<and>
    (MCP23017_checkId d chip_id \<and> rp (t @ [I2C_Read h a (GPIO_of port)]) = None \<longrightarrow>
       MCP23017_getGPIO d chip_id port pin True
         = (None, io_failed d chip_id [I2C_Read h a (GPIO_of port)]) \<and>
       MCP23017_getGPIO_all_pins d chip_id port True
         = (None, io_failed d chip_id [I2C_Read h a (GPIO_of port)])) \<and>
    (MCP23017_checkId d chip_id \<and> rp (t @ [I2C_Read h a (GPPU_of port)]) = None \<longrightarrow>
       MCP23017_setPullUp d chip_id port pin pull
         = (False, io_failed d chip_id [I2C_Read h a (GPPU_of port)]) \<and>
       MCP23017_getPullUp d chip_id port pin True
         = (None, io_failed d chip_id [I2C_Read h a (GPPU_of port)])) \<and>
    (MCP23017_checkId d chip_id \<and> rp (t @ [I2C_Read h a (IODIR_of port)]) = Some v \<and>
     rp (t @ [I2C_Read h a (IODIR_of port),
              I2C_Write h a (IODIR_of port)
                (masked (direction = MCP23017_DIRECTION_OUTPUT) v pin)]) = None \<longrightarrow>
       MCP23017_setIO d chip_id port pin direction
         = (False, io_failed d chip_id
              [I2C_Read h a (IODIR_of port),
               I2C_Write h a (IODIR_of port)
                 (masked (direction = MCP23017_DIRECTION_OUTPUT) v pin)])) \<and>
    (MCP23017_checkId d chip_id \<and> rp (t @ [I2C_Read h a (OLAT_of port)]) = Some v \<and>
     rp (t @ [I2C_Read h a (OLAT_of port),
              I2C_Write h a (OLAT_of port)
                (masked (state = MCP23017_PIN_STATE_LOW) v pin)]) = None \<longrightarrow>
       MCP23017_setGPIO d chip_id port pin state
         = (False, io_failed d chip_id
              [I2C_Read h a (OLAT_of port),
               I2C_Write h a (OLAT_of port)
                 (masked (state = MCP23017_PIN_STATE_LOW) v pin)])) \<and>
    (MCP23017_checkId d chip_id \<and> rp (t @ [I2C_Read h a (GPPU_of port)]) = Some v \<and>
     rp (t @ [I2C_Read h a (GPPU_of port),
              I2C_Write h a (GPPU_of port)
                (masked (pull = MCP23017_PULL_UP_STATE_LOW) v pin)]) = None \<longrightarrow>
       MCP23017_setPullUp d chip_id port pin pull
         = (False, io_failed d chip_id
              [I2C_Read h a (GPPU_of port),
               I2C_Write h a (GPPU_of port)
                 (masked (pull = MCP23017_PULL_UP_STATE_LOW) v pin)])) \<and>
    (MCP23017_checkId d chip_id \<longrightarrow>
       error_count (MCP23017_ic (io_failed d chip_id ops) ! chip_id)
         = error_count (MCP23017_ic d ! chip_id) + 1 \<and>
       used (MCP23017_ic (io_failed d chip_id ops) ! chip_id) \<and>
       address (MCP23017_ic (io_failed d chip_id ops) ! chip_id) = a \<and>
       I2Cx (MCP23017_ic (io_failed d chip_id ops) ! chip_id) = h \<and>
       (\<forall>j. j \<noteq> chip_id \<longrightarrow> MCP23017_ic (io_failed d chip_id ops) ! j = MCP23017_ic d ! j) \<and>
       length (MCP23017_ic (io_failed d chip_id ops)) = length (MCP23017_ic d) \<and>
       i2c_trace (io_failed d chip_id ops) = t @ ops \<and>
       i2c_reply (io_failed d chip_id ops) = rp)"
proof -
  note ha = assms(1,2)
  have p1: "MCP23017_checkId d chip_id \<longleftrightarrow>
       chip_id < length (MCP23017_ic d) \<and> used (MCP23017_ic d ! chip_id)"
    by (rule checkId_iff)
  have p2: "\<not> MCP23017_checkId d chip_id \<longrightarrow>
       MCP23017_setIO d chip_id port pin direction = (False, d) \<and>
       MCP23017_getIO d chip_id port pin ptr = (None, d) \<and>
       MCP23017_setGPIO d chip_id port pin state = (False, d) \<and>
       MCP23017_getGPIO d chip_id port pin ptr = (None, d) \<and>
       MCP23017_getGPIO_all_pins d chip_id port ptr = (None, d) \<and>
       MCP23017_setPullUp d chip_id port pin pull = (False, d) \<and>
       MCP23017_getPullUp d chip_id port pin ptr = (None, d)"
    by (simp add: invalid_id)
  have p3: "MCP23017_checkId d chip_id \<and> rp (t @ [I2C_Read h a (IODIR_of port)]) = None \<longrightarrow>
       MCP23017_setIO d chip_id port pin direction
         = (False, io_failed d chip_id [I2C_Read h a (IODIR_of port)]) \<and>
       MCP23017_getIO d chip_id port pin True
         = (None, io_failed d chip_id [I2C_Read h a (IODIR_of port)])"
    using setIO_cases(1) [OF _ ha refl] getter_read_fail(1) [OF _ ha]
    by (simp add: assms(3,4))
  have p4: "MCP23017_checkId d chip_id \<and> rp (t @ [I2C_Read h a (OLAT_of port)]) = None \<longrightarrow>
       MCP23017_setGPIO d chip_id port pin state
         = (False, io_failed d chip_id [I2C_Read h a (OLAT_of port)])"
    using setGPIO_cases(1) [OF _ ha refl]
    by (simp add: assms(3,4))
  have p5: "MCP23017_checkId d chip_id \<and> rp (t @ [I2C_Read h a (GPIO_of port)]) = None \<longrightarrow>
       MCP23017_getGPIO d chip_id port pin True
         = (None, io_failed d chip_id [I2C_Read h a (GPIO_of port)]) \<and>
       MCP23017_getGPIO_all_pins d chip_id port True
         = (None, io_failed d chip_id [I2C_Read h a (GPIO_of port)])"
    using getter_read_fail(2,3) [OF _ ha]
    by (simp add: assms(3,4))
  have p6: "MCP23017_checkId d chip_id \<and> rp (t @ [I2C_Read h a (GPPU_of port)]) = None \<longrightarrow>
       MCP23017_setPullUp d chip_id port pin pull
         = (False, io_failed d chip_id [I2C_Read h a (GPPU_of port)]) \<and>
       MCP23017_getPullUp d chip_id port pin True
         = (None, io_failed d chip_id [I2C_Read h a (GPPU_of port)])"
    using setPullUp_cases(1) [OF _ ha refl] getter_read_fail(4) [OF _ ha]
    by (simp add: assms(3,4))
  have p7: "MCP23017_checkId d chip_id \<and> rp (t @ [I2C_Read h a (IODIR_of port)]) = Some v \<and>
     rp (t @ [I2C_Read h a (IODIR_of port),
              I2C_Write h a (IODIR_of port)
                (masked (direction = MCP23017_DIRECTION_OUTPUT) v pin)]) = None \<longrightarrow>
       MCP23017_setIO d chip_id port pin direction
         = (False, io_failed d chip_id
              [I2C_Read h a (IODIR_of port),
               I2C_Write h a (IODIR_of port)
                 (masked (direction = MCP23017_DIRECTION_OUTPUT) v pin)])"
    using setIO_cases(2) [OF _ ha refl _ refl]
    by (simp add: assms(3,4))
  have p8: "MCP23017_checkId d chip_id \<and> rp (t @ [I2C_Read h a (OLAT_of port)]) = Some v \<and>
     rp (t @ [I2C_Read h a (OLAT_of port),
              I2C_Write h a (OLAT_of port)
                (masked (state = MCP23017_PIN_STATE_LOW) v pin)]) = None \<longrightarrow>
       MCP23017_setGPIO d chip_id port pin state
         = (False, io_failed d chip_id
              [I2C_Read h a (OLAT_of port),
               I2C_Write h a (OLAT_of port)
                 (masked (state = MCP23017_PIN_STATE_LOW) v pin)])"
    using setGPIO_cases(2) [OF _ ha refl _ refl]
    by (simp add: assms(3,4))
  have p9: "MCP23017_checkId d chip_id \<and> rp (t @ [I2C_Read h a (GPPU_of port)]) = Some v \<and>
     rp (t @ [I2C_Read h a (GPPU_of port),
              I2C_Write h a (GPPU_of port)
                (masked (pull = MCP23017_PULL_UP_STATE_LOW) v pin)]) = None \<longrightarrow>
       MCP23017_setPullUp d chip_id port pin pull
         = (False, io_failed d chip_id
              [I2C_Read h a (GPPU_of port),
               I2C_Write h a (GPPU_of port)
                 (masked (pull = MCP23017_PULL_UP_STATE_LOW) v pin)])"
    using setPullUp_cases(2) [OF _ ha refl _ refl]
    by (simp add: assms(3,4))
  have p10: "MCP23017_checkId d chip_id \<longrightarrow>
       error_count (MCP23017_ic (io_failed d chip_id ops) ! chip_id)
         = error_count (MCP23017_ic d ! chip_id) + 1 \<and>
       used (MCP23017_ic (io_failed d chip_id ops) ! chip_id) \<and>
       address (MCP23017_ic (io_failed d chip_id ops) ! chip_id) = a \<and>
       I2Cx (MCP23017_ic (io_failed d chip_id ops) ! chip_id) = h \<and>
       (\<forall>j. j \<noteq> chip_id \<longrightarrow> MCP23017_ic (io_failed d chip_id ops) ! j = MCP23017_ic d ! j) \<and>
       length (MCP23017_ic (io_failed d chip_id ops)) = length (MCP23017_ic d) \<and>
       i2c_trace (io_failed d chip_id ops) = t @ ops \<and>
       i2c_reply (io_failed d chip_id ops) = rp"
    using io_failed_fields [of chip_id d ops]
    by (simp add: checkId_iff assms)
  show ?thesis
    using p1 p2 p3 p4 p5 p6 p7 p8 p9 p10 by blast
qed

theorem C9_register_operations_witness:
  "MCP23017_setGPIO (driver_one_chip dead_bus) 0 MCP23017_PORT_A 0x01 MCP23017_PIN_STATE_LOW
     = (False, io_failed (driver_one_chip dead_bus) 0 [I2C_Read 0 0x40 MPC23017_REGISTER_OLAT_A]) \<and>
   error_count (MCP23017_ic (io_failed (driver_one_chip dead_bus) 0
                               [I2C_Read 0 0x40 MPC23017_REGISTER_OLAT_A]) ! 0) = 1 \<and>
   MCP23017_getGPIO (driver_one_chip dead_bus) 0 MCP23017_PORT_B 0x01 True
     = (None, io_failed (driver_one_chip dead_bus) 0 [I2C_Read 0 0x40 MPC23017_REGISTER_GPIO_B]) \<and>
   MCP23017_setGPIO (driver_one_chip dead_bus) 1 MCP23017_PORT_A 0x01 MCP23017_PIN_STATE_LOW
     = (False, driver_one_chip dead_bus) \<and>
   MCP23017_setGPIO (driver_one_chip write_failing_bus) 0 MCP23017_PORT_A 0x01 MCP23017_PIN_STATE_LOW
     = (False, io_failed (driver_one_chip write_failing_bus) 0
                 [I2C_Read 0 0x40 MPC23017_REGISTER_OLAT_A,
                  I2C_Write 0 0x40 MPC23017_REGISTER_OLAT_A 0xFE])"
proof -
  let ?d = "driver_one_chip dead_bus" and ?w = "driver_one_chip write_failing_bus"
  have ok: "MCP23017_checkId ?d 0" "MCP23017_checkId ?w 0" "\<not> MCP23017_checkId ?d 1"
    by (simp_all add: MCP23017_checkId_def driver_one_chip_def)
  have f: "I2Cx (MCP23017_ic ?d ! 0) = 0" "address (MCP23017_ic ?d ! 0) = 0x40"
    "i2c_reply ?d = dead_bus" "i2c_trace ?d = []"
    "I2Cx (MCP23017_ic ?w ! 0) = 0" "address (MCP23017_ic ?w ! 0) = 0x40"
    "i2c_reply ?w = write_failing_bus" "i2c_trace ?w = []"
    by (simp_all add: driver_one_chip_def)
  note dead = C9_register_operations [where d = ?d and chip_id = 0 and port = MCP23017_PORT_A
      and pin = 1 and state = MCP23017_PIN_STATE_LOW
      and ops = "[I2C_Read 0 0x40 MPC23017_REGISTER_OLAT_A]", OF refl refl refl refl]
  note deadb = C9_register_operations [where d = ?d and chip_id = 0 and port = MCP23017_PORT_B
      and pin = 1, OF refl refl refl refl]
  note inval = C9_register_operations [where d = ?d and chip_id = 1 and port = MCP23017_PORT_A
      and pin = 1 and state = MCP23017_PIN_STATE_LOW, OF refl refl refl refl]
  note wr = C9_register_operations [where d = ?w and chip_id = 0 and port = MCP23017_PORT_A
      and pin = 1 and state = MCP23017_PIN_STATE_LOW and v = 255, OF refl refl refl refl]
  have w1: "MCP23017_setGPIO ?d 0 MCP23017_PORT_A 0x01 MCP23017_PIN_STATE_LOW
     = (False, io_failed ?d 0 [I2C_Read 0 0x40 MPC23017_REGISTER_OLAT_A])"
    and w2: "error_count (MCP23017_ic (io_failed ?d 0
                               [I2C_Read 0 0x40 MPC23017_REGISTER_OLAT_A]) ! 0) = 1"
    using dead ok(1) by (simp_all add: f dead_bus_def OLAT_of_def driver_one_chip_def)
  have w3: "MCP23017_getGPIO ?d 0 MCP23017_PORT_B 0x01 True
     = (None, io_failed ?d 0 [I2C_Read 0 0x40 MPC23017_REGISTER_GPIO_B])"
    using deadb ok(1) by (simp add: f dead_bus_def GPIO_of_def)
  have w4: "MCP23017_setGPIO ?d 1 MCP23017_PORT_A 0x01 MCP23017_PIN_STATE_LOW = (False, ?d)"
    using inval ok(3) by simp
  have w5: "MCP23017_setGPIO ?w 0 MCP23017_PORT_A 0x01 MCP23017_PIN_STATE_LOW
     = (False, io_failed ?w 0
                 [I2C_Read 0 0x40 MPC23017_REGISTER_OLAT_A,
                  I2C_Write 0 0x40 MPC23017_REGISTER_OLAT_A 0xFE])"
    using wr ok(2) by (simp add: f write_failing_bus_def OLAT_of_def masked_def)
  show ?thesis using w1 w2 w3 w4 w5 by blast
qed

section \<open>The matrix scan on an ideal matrix\<close>

lemma olat_a_of_append:
  "olat_a_of (t @ ops) =
     fold (\<lambda>x v. case x of
                    I2C_Write h a r b \<Rightarrow> if r = MPC23017_REGISTER_OLAT_A then b else v
                  | _ \<Rightarrow> v)
          ops (olat_a_of t)"
  by (simp add: olat_a_of_def)

lemma matrix_device_snoc:
  "matrix_device rows (t @ [x]) =
     (case x of
        I2C_Read h a r \<Rightarrow>
          Some (if r = MPC23017_REGISTER_GPIO_B then rows (olat_a_of t)
                else if r = MPC23017_REGISTER_OLAT_A then olat_a_of t else 0x00)
      | _ \<Rightarrow> Some 0x00)"
  by (simp add: matrix_device_def split: i2c_op.split)

lemma matrix_device_write:
  "matrix_device rows (t @ [x, I2C_Write h a r b]) = Some 0x00"
  using matrix_device_snoc [of rows "t @ [x]" "I2C_Write h a r b"] by simp

lemmas reg_defs =
  MPC23017_REGISTER_IODIR_A_def MPC23017_REGISTER_IODIR_B_def MPC23017_REGISTER_GPINTEN_A_def
  MPC23017_REGISTER_GPINTEN_B_def MPC23017_REGISTER_IOCON_A_def MPC23017_REGISTER_IOCON_B_def
  MPC23017_REGISTER_GPPU_A_def MPC23017_REGISTER_GPPU_B_def MPC23017_REGISTER_GPIO_A_def
  MPC23017_REGISTER_GPIO_B_def MPC23017_REGISTER_OLAT_A_def MPC23017_REGISTER_OLAT_B_def

lemma setGPIO_good:
  assumes "good rows d v"
  shows "good rows (snd (MCP23017_setGPIO d 0 MCP23017_PORT_A pin state))
           (masked (state = MCP23017_PIN_STATE_LOW) v pin)"
proof -
  let ?r = "I2C_Read 0 0x40 MPC23017_REGISTER_OLAT_A"
  let ?w = "I2C_Write 0 0x40 MPC23017_REGISTER_OLAT_A (masked (state = MCP23017_PIN_STATE_LOW) v pin)"
  have ic: "MCP23017_ic d = [\<lparr>used = True, address = 0x40, I2Cx = 0, error_count = 0\<rparr>]"
    and rp: "i2c_reply d = matrix_device rows" and v: "olat_a_of (i2c_trace d) = v"
    using assms by (simp_all add: good_def)
  have r: "i2c_reply d (i2c_trace d @ [?r]) = Some v"
    by (simp add: rp matrix_device_snoc v reg_defs)
  have w: "i2c_reply d (i2c_trace d @ [?r, ?w]) = Some 0"
    by (simp only: rp matrix_device_write)
  have "MCP23017_setGPIO d 0 MCP23017_PORT_A pin state = (True, d\<lparr>i2c_trace := i2c_trace d @ [?r, ?w]\<rparr>)"
    using r w
    by (simp add: MCP23017_setGPIO_def MCP23017_checkId_def ic BSP_I2C_Read_eq BSP_I2C_Write_eq
        Let_def masked_def)
  then show ?thesis
    by (simp add: good_def ic rp olat_a_of_append v)
qed

lemma getGPIO_good:
  assumes "good rows d v"
  shows "fst (MCP23017_getGPIO d 0 MCP23017_PORT_B pin True) =
           Some (if rows v AND pin \<noteq> 0 then MCP23017_PIN_STATE_HIGH else MCP23017_PIN_STATE_LOW)"
    and "good rows (snd (MCP23017_getGPIO d 0 MCP23017_PORT_B pin True)) v"
proof -
  let ?r = "I2C_Read 0 0x40 MPC23017_REGISTER_GPIO_B"
  have ic: "MCP23017_ic d = [\<lparr>used = True, address = 0x40, I2Cx = 0, error_count = 0\<rparr>]"
    and rp: "i2c_reply d = matrix_device rows" and v: "olat_a_of (i2c_trace d) = v"
    using assms by (simp_all add: good_def)
  have r: "i2c_reply d (i2c_trace d @ [?r]) = Some (rows v)"
    by (simp add: rp matrix_device_snoc v)
  have g: "MCP23017_getGPIO d 0 MCP23017_PORT_B pin True =
      (Some (if rows v AND pin \<noteq> 0 then MCP23017_PIN_STATE_HIGH else MCP23017_PIN_STATE_LOW),
       d\<lparr>i2c_trace := i2c_trace d @ [?r]\<rparr>)"
    using r
    by (simp add: MCP23017_getGPIO_def MCP23017_checkId_def ic BSP_I2C_Read_eq Let_def)
  show "fst (MCP23017_getGPIO d 0 MCP23017_PORT_B pin True) =
           Some (if rows v AND pin \<noteq> 0 then MCP23017_PIN_STATE_HIGH else MCP23017_PIN_STATE_LOW)"
    by (simp add: g)
  show "good rows (snd (MCP23017_getGPIO d 0 MCP23017_PORT_B pin True)) v"
    by (simp add: g good_def ic rp olat_a_of_append v)
qed

lemma fold_setGPIO_good:
  assumes "good rows d v"
  shows "good rows
           (fold (\<lambda>c d'. snd (MCP23017_setGPIO d' 0 MCP23017_PORT_A (push_bit c 1) (lvl c))) cs d)
           (fold (\<lambda>c v'. masked (lvl c = MCP23017_PIN_STATE_LOW) v' (push_bit c 1)) cs v)"
  using assms
proof (induction cs arbitrary: d v)
  case Nil
  then show ?case by simp
next
  case (Cons c cs)
  have "good rows (snd (MCP23017_setGPIO d 0 MCP23017_PORT_A (push_bit c 1) (lvl c)))
      (masked (lvl c = MCP23017_PIN_STATE_LOW) v (push_bit c 1))"
    using Cons.prems by (rule setGPIO_good)
  then show ?case
    using Cons.IH by simp
qed

lemma strobe_column_good:
  assumes "good rows d v"
  shows "good rows (strobe_column d 0 col) (strobe_value col v)"
proof -
  have "good rows
      (fold (\<lambda>c d'. snd (MCP23017_setGPIO d' 0 MCP23017_PORT_A (push_bit c 1)
                 (if c = col then MCP23017_PIN_STATE_LOW else MCP23017_PIN_STATE_HIGH))) [0..<8] d)
      (fold (\<lambda>c v'. masked ((if c = col then MCP23017_PIN_STATE_LOW else MCP23017_PIN_STATE_HIGH)
                               = MCP23017_PIN_STATE_LOW) v' (push_bit c 1)) [0..<8] v)"
    using assms by (rule fold_setGPIO_good)
  moreover have "(\<lambda>c v'. masked ((if c = col then MCP23017_PIN_STATE_LOW else MCP23017_PIN_STATE_HIGH)
                               = MCP23017_PIN_STATE_LOW) v' (push_bit c 1))
      = (\<lambda>c v'. masked (c = col) v' (push_bit c 1))"
    by (simp add: fun_eq_iff)
  ultimately show ?thesis
    by (simp add: strobe_column_def strobe_value_def)
qed

lemma all_columns_high_good:
  assumes "good rows d v"
  shows "good rows (all_columns_high d 0) (idle_value v)"
  using fold_setGPIO_good [OF assms, of "\<lambda>c. MCP23017_PIN_STATE_HIGH" "[0..<8]"]
  by (simp add: all_columns_high_def idle_value_def)

lemma fold_read_rows_good:
  assumes "good rows d v"
  shows "fst (fold (\<lambda>pin (port_b_value, d').
             case MCP23017_getGPIO d' 0 MCP23017_PORT_B (of_nat pin) True of
               (Some pin_state, d'') \<Rightarrow>
                 (if pin_state = MCP23017_PIN_STATE_HIGH then port_b_value OR push_bit pin 1
                  else port_b_value, d'')
             | (None, d'') \<Rightarrow> (port_b_value, d'')) ps (acc, d))
         = fold (\<lambda>pin port_b_value.
             if rows v AND of_nat pin \<noteq> 0 then port_b_value OR push_bit pin 1 else port_b_value)
             ps acc \<and>
         good rows (snd (fold (\<lambda>pin (port_b_value, d').
             case MCP23017_getGPIO d' 0 MCP23017_PORT_B (of_nat pin) True of
               (Some pin_state, d'') \<Rightarrow>
                 (if pin_state = MCP23017_PIN_STATE_HIGH then port_b_value OR push_bit pin 1
                  else port_b_value, d'')
             | (None, d'') \<Rightarrow> (port_b_value, d'')) ps (acc, d))) v"
  using assms
proof (induction ps arbitrary: acc d)
  case Nil
  then show ?case by simp
next
  case (Cons p ps)
  obtain st d1 where g: "MCP23017_getGPIO d 0 MCP23017_PORT_B (of_nat p) True = (st, d1)"
    by (cases "MCP23017_getGPIO d 0 MCP23017_PORT_B (of_nat p) True")
  have st: "st = Some (if rows v AND of_nat p \<noteq> 0 then MCP23017_PIN_STATE_HIGH
                       else MCP23017_PIN_STATE_LOW)"
    and d1: "good rows d1 v"
    using getGPIO_good [OF Cons.prems, of "of_nat p"] g by simp_all
  show ?case
    using Cons.IH [OF d1] by (simp add: g st)
qed

lemma read_rows_good:
  assumes "good rows d v"
  shows "fst (read_rows d 0) = seen_rows (rows v)" and "good rows (snd (read_rows d 0)) v"
  using fold_read_rows_good [OF assms, of "[0..<8]" 0]
  unfolding read_rows_def seen_rows_def by blast+

lemma sweep_good:
  assumes "good rows d v"
  shows "fst (fold (\<lambda>col (state, d').
                       let d'' = strobe_column d' 0 col;
                           (port_b_value, d''') = read_rows d'' 0
                       in (analyse_rows port_b_value col state, d'''))
                    cs (st, d))
         = fst (fold (\<lambda>col (state, v').
                  let v'' = strobe_value col v'
                  in (analyse_rows (seen_rows (rows v'')) col state, v''))
               cs (st, v)) \<and>
         good rows
           (snd (fold (\<lambda>col (state, d').
                       let d'' = strobe_column d' 0 col;
                           (port_b_value, d''') = read_rows d'' 0
                       in (analyse_rows port_b_value col state, d'''))
                    cs (st, d)))
           (snd (fold (\<lambda>col (state, v').
                  let v'' = strobe_value col v'
                  in (analyse_rows (seen_rows (rows v'')) col state, v''))
               cs (st, v)))"
  using assms
proof (induction cs arbitrary: st d v)
  case Nil
  then show ?case by simp
next
  case (Cons c cs)
  let ?d1 = "strobe_column d 0 c"
  have g1: "good rows ?d1 (strobe_value c v)"
    using Cons.prems by (rule strobe_column_good)
  obtain pb d2 where rr: "read_rows ?d1 0 = (pb, d2)"
    by (cases "read_rows ?d1 0")
  have pb: "pb = seen_rows (rows (strobe_value c v))" and g2: "good rows d2 (strobe_value c v)"
    using read_rows_good [OF g1] rr by simp_all
  show ?case
    using Cons.IH [OF g2, of "analyse_rows pb c st"]
    by (simp add: rr pb Let_def)
qed

lemma read_all_good:
  assumes "good rows d v" and "initialized k" and "keyboard_chip_id k = 0"
  shows "fst (MATRIX_KEYBOARD_read_all_touchs k d) = scan_ideal rows v"
proof -
  have g1: "good rows (all_columns_high d 0) (idle_value v)"
    using assms(1) by (rule all_columns_high_good)
  show ?thesis
    using sweep_good [OF g1, of "[0..<8]" 0] assms(2,3)
    by (simp add: MATRIX_KEYBOARD_read_all_touchs_def scan_ideal_def Let_def split_def)
qed

lemma olat_a_of_Nil: "olat_a_of [] = 0xFF"
  unfolding olat_a_of_def by simp

lemma good_one_chip: "good rows (driver_one_chip (matrix_device rows)) 0xFF"
  unfolding good_def driver_one_chip_def by (simp add: olat_a_of_Nil)

lemma upt_8: "[0..<8] = [0, 1, 2, 3, 4, 5, 6, 7]"
  by (simp add: upt_rec)

lemma idle_FF: "idle_value 0xFF = 0xFF"
  by (simp add: idle_value_def upt_8 masked_def)

lemma strobe_chain:
  "strobe_value 0 0xFF = 0xFE" "strobe_value (Suc 0) 0xFE = 0xFD" "strobe_value 2 0xFD = 0xFB"
  "strobe_value 3 0xFB = 0xF7" "strobe_value 4 0xF7 = 0xEF" "strobe_value 5 0xEF = 0xDF"
  "strobe_value 6 0xDF = 0xBF" "strobe_value 7 0xBF = 0x7F"
  by (simp_all add: strobe_value_def upt_8 masked_def)

lemma seen_rows_values: "seen_rows 0xFF = 0xFE" "seen_rows 0xFB = 0xEE"
  by (simp_all add: seen_rows_def upt_8)

lemma analyse_rows_values:
  "analyse_rows 0xFE 0 0 = 0x01" "analyse_rows 0xFE (Suc 0) 0x01 = 0x03" "analyse_rows 0xFE 2 0x03 = 0x07"
  "analyse_rows 0xEE 3 0x07 = 0x0F" "analyse_rows 0xFE 3 0x07 = 0x0F"
  "analyse_rows 0xFE 4 0x0F = 0x1F" "analyse_rows 0xFE 5 0x1F = 0x3F"
  "analyse_rows 0xFE 6 0x3F = 0x7F" "analyse_rows 0xFE 7 0x7F = 0xFF"
  by (simp_all add: analyse_rows_def upt_8 Let_def)

lemma scan_row2_col3: "scan_ideal only_row2_col3 0xFF = 0xFF"
  by (simp add: scan_ideal_def upt_8 idle_FF Let_def strobe_chain only_row2_col3_def
      seen_rows_values analyse_rows_values)

lemma scan_no_key: "scan_ideal no_key 0xFF = 0xFF"
  by (simp add: scan_ideal_def upt_8 idle_FF Let_def strobe_chain no_key_def
      seen_rows_values analyse_rows_values)

text \<open>
  Claim C5 against the code. On an ideal matrix in which only the key at row 2, column 3
  is pressed, \<^verbatim>\<open>MATRIX_KEYBOARD_read_all_touchs\<close> returns 0x000000FF: bits 0 to 7 are set and
  bit 19 is clear. With no key pressed it returns 0x000000FF as well. The row loop passes
  the row index as the pin argument of \<^verbatim>\<open>MCP23017_getGPIO\<close>, which uses it as a bit mask.
\<close>

theorem C5_scan_row2_col3:
  "fst (MATRIX_KEYBOARD_read_all_touchs \<lparr>initialized = True, keyboard_chip_id = 0\<rparr>
          (driver_one_chip (matrix_device only_row2_col3))) = 0x000000FF \<and>
   \<not> bit (fst (MATRIX_KEYBOARD_read_all_touchs \<lparr>initialized = True, keyboard_chip_id = 0\<rparr>
                 (driver_one_chip (matrix_device only_row2_col3)))) 19 \<and>
   fst (MATRIX_KEYBOARD_read_all_touchs \<lparr>initialized = True, keyboard_chip_id = 0\<rparr>
          (driver_one_chip (matrix_device no_key))) = 0x000000FF"
proof -
  have "fst (MATRIX_KEYBOARD_read_all_touchs \<lparr>initialized = True, keyboard_chip_id = 0\<rparr>
          (driver_one_chip (matrix_device only_row2_col3))) = 0xFF"
    using read_all_good [OF good_one_chip, of "\<lparr>initialized = True, keyboard_chip_id = 0\<rparr>"
        only_row2_col3]
    by (simp add: scan_row2_col3)
  moreover have "fst (MATRIX_KEYBOARD_read_all_touchs \<lparr>initialized = True, keyboard_chip_id = 0\<rparr>
          (driver_one_chip (matrix_device no_key))) = 0xFF"
    using read_all_good [OF good_one_chip, of "\<lparr>initialized = True, keyboard_chip_id = 0\<rparr>"
        no_key]
    by (simp add: scan_no_key)
  ultimately show ?thesis by simp
qed

end
